theory Spec2Isabelle
  imports Main "HOL-Library.AList" "HOL-Library.Sublist"
begin

section \<open>JavaScript values\<close>

text \<open>
  The server of \<^verbatim>\<open>src/puppeteer/index.ts\<close> keeps its tool arguments and launch
  configurations as untyped values (\<^verbatim>\<open>any\<close>). They arrive as JSON, so a value is
  \<^verbatim>\<open>undefined\<close> (a missing property), \<^verbatim>\<open>null\<close>, a boolean, a number, a
  string, an array or an object. An array or an object is a reference: it carries the
  address it was allocated at, and two of them are one object exactly when their
  addresses are equal. No code of the server writes into an object that another
  variable holds (\<^verbatim>\<open>deepMerge\<close> writes into its fresh \<^verbatim>\<open>out\<close> only), so the
  content of a reference never changes and stands beside its address. An object is the
  list of its own properties in property order. Numbers are integers here: the server
  never computes with them, it compares and prints them.
\<close>

type_synonym addr = "nat list"

datatype jsval =
    JUndefined
  | JNull
  | JBool bool
  | JNum int
  | JStr string
  | JArr addr "jsval list"
  | JObj addr "(string \<times> jsval) list"

type_synonym props = "(string \<times> jsval) list"

text \<open>What a \<^verbatim>\<open>throw\<close> carries: a runtime \<^verbatim>\<open>TypeError\<close> or an
  \<^verbatim>\<open>Error\<close> (the server's own, or one of the browser library), each with its
  message.\<close>

datatype exn = TypeError string | Error string

fun message :: "exn \<Rightarrow> string" where
  "message (TypeError m) = m"
| "message (Error m) = m"

datatype js_type = TyUndefined | TyObject | TyBoolean | TyNumber | TyString

fun typeof :: "jsval \<Rightarrow> js_type" where
  "typeof JUndefined = TyUndefined"
| "typeof JNull = TyObject"
| "typeof (JBool b) = TyBoolean"
| "typeof (JNum n) = TyNumber"
| "typeof (JStr s) = TyString"
| "typeof (JArr a xs) = TyObject"
| "typeof (JObj a ps) = TyObject"

fun truthy :: "jsval \<Rightarrow> bool" where
  "truthy JUndefined = False"
| "truthy JNull = False"
| "truthy (JBool b) = b"
| "truthy (JNum n) = (n \<noteq> 0)"
| "truthy (JStr s) = (s \<noteq> [])"
| "truthy (JArr a xs) = True"
| "truthy (JObj a ps) = True"

fun isArray :: "jsval \<Rightarrow> bool" where
  "isArray (JArr a xs) = True"
| "isArray v = False"

fun is_primitive :: "jsval \<Rightarrow> bool" where
  "is_primitive (JArr a xs) = False"
| "is_primitive (JObj a ps) = False"
| "is_primitive v = True"

fun elems :: "jsval \<Rightarrow> jsval list" where
  "elems (JArr a xs) = xs"
| "elems v = []"

text \<open>The value without its addresses: two values are equal in structure when these
  are equal.\<close>

fun forget :: "jsval \<Rightarrow> jsval"
  and forget_elems :: "jsval list \<Rightarrow> jsval list"
  and forget_props :: "props \<Rightarrow> props" where
  "forget (JArr a xs) = JArr [] (forget_elems xs)"
| "forget (JObj a ps) = JObj [] (forget_props ps)"
| "forget v = v"
| "forget_elems [] = []"
| "forget_elems (x # xs) = forget x # forget_elems xs"
| "forget_props [] = []"
| "forget_props (p # ps) = (fst p, forget (snd p)) # forget_props ps"

subsection \<open>Numbers and strings\<close>

definition digit_char :: "nat \<Rightarrow> char" where
  "digit_char d = ''0123456789'' ! d"

fun show_nat :: "nat \<Rightarrow> string" where
  "show_nat n = (if n < 10 then [digit_char n] else show_nat (n div 10) @ [digit_char (n mod 10)])"

text \<open>
  A number is a double, and the numbers of this theory are the integers among the
  doubles: every integer below \<open>2\<^sup>5\<^sup>3\<close> in magnitude, and above that the integers
  that \<open>to_double\<close> (rounding to 53 significant bits, ties to the even significand)
  leaves as they are. An integer below \<open>2\<^sup>5\<^sup>3\<close> prints as its digits. For a larger
  one \<^verbatim>\<open>Number::toString\<close> prints the decimal of fewest digits that is read back
  as the same double, the nearest one when there is a choice (\<open>shortest\<close>): with
  zeros up to twenty-one digits, with an exponent from there on.
\<close>

fun bit_length :: "nat \<Rightarrow> nat" where
  "bit_length n = (if n = 0 then 0 else Suc (bit_length (n div 2)))"

definition to_double :: "nat \<Rightarrow> nat" where
  "to_double n =
     (if bit_length n \<le> 53 then n
      else let u = 2 ^ (bit_length n - 53); q = n div u; r = n mod u
           in if 2 * r < u \<or> (2 * r = u \<and> even q) then q * u else (q + 1) * u)"

definition round_to :: "nat \<Rightarrow> nat \<Rightarrow> nat option" where
  "round_to n p =
     (let lo = (n div p) * p; hi = lo + p;
          lo_ok = (to_double lo = n); hi_ok = (to_double hi = n)
      in if lo_ok \<and> hi_ok
         then Some (if n - lo < hi - n \<or> (n - lo = hi - n \<and> even (lo div p)) then lo else hi)
         else if lo_ok then Some lo else if hi_ok then Some hi else None)"

definition shortest :: "nat \<Rightarrow> nat" where
  "shortest n =
     (case List.map_filter (round_to n) (map (\<lambda>k. 10 ^ k) (rev [0..<length (show_nat n)])) of
        [] \<Rightarrow> n | c # cs \<Rightarrow> c)"

definition exponent_form :: "string \<Rightarrow> string" where
  "exponent_form ds =
     (let sig = rev (dropWhile (\<lambda>c. c = CHR ''0'') (rev ds))
      in hd sig # (if tl sig = [] then [] else ''.'' @ tl sig) @ ''e+'' @ show_nat (length ds - 1))"

definition show_number :: "int \<Rightarrow> string" where
  "show_number i =
     (let n = nat \<bar>i\<bar>; sign = (if i < 0 then ''-'' else [])
      in if n < 2 ^ 53 then sign @ show_nat n
         else let ds = show_nat (shortest (to_double n))
              in sign @ (if length ds \<le> 21 then ds else exponent_form ds))"

definition is_digit :: "char \<Rightarrow> bool" where
  "is_digit c = (c \<in> set ''0123456789'')"

definition read_nat :: "string \<Rightarrow> nat" where
  "read_nat s = foldl (\<lambda>a c. 10 * a + (of_char c - 48)) 0 s"

text \<open>An array index as a property name: the canonical decimal of an integer below
  \<open>2\<^sup>3\<^sup>2 - 1\<close>. Objects list such keys first, in ascending order.\<close>

definition index_of_key :: "string \<Rightarrow> nat option" where
  "index_of_key k =
     (if k \<noteq> [] \<and> list_all is_digit k \<and> (k = ''0'' \<or> hd k \<noteq> CHR ''0'')
          \<and> int (read_nat k) < 4294967295
      then Some (read_nat k) else None)"

fun join :: "string \<Rightarrow> string list \<Rightarrow> string" where
  "join sep [] = []"
| "join sep [x] = x"
| "join sep (x # y # ys) = x @ sep @ join sep (y # ys)"

text \<open>
  \<^verbatim>\<open>String(v)\<close>, as a template literal applies it. An array prints its elements
  joined by commas, \<^verbatim>\<open>null\<close> and \<^verbatim>\<open>undefined\<close> as nothing. An object calls
  its \<^verbatim>\<open>toString\<close>: the inherited one answers \<^verbatim>\<open>[object Object]\<close>; an own
  property of that name, which in a value from JSON is never a function, leaves no way
  to a primitive and the conversion throws.
\<close>

definition no_primitive :: exn where
  "no_primitive = TypeError ''Cannot convert object to primitive value''"

fun to_string :: "jsval \<Rightarrow> exn + string"
  and to_strings :: "jsval list \<Rightarrow> exn + string list" where
  "to_string JUndefined = Inr ''undefined''"
| "to_string JNull = Inr ''null''"
| "to_string (JBool b) = Inr (if b then ''true'' else ''false'')"
| "to_string (JNum n) = Inr (show_number n)"
| "to_string (JStr s) = Inr s"
| "to_string (JArr a xs) =
     (case to_strings xs of Inl e \<Rightarrow> Inl e | Inr ss \<Rightarrow> Inr (join '','' ss))"
| "to_string (JObj a ps) =
     (if ''toString'' \<in> fst ` set ps then Inl no_primitive else Inr ''[object Object]'')"
| "to_strings [] = Inr []"
| "to_strings (x # xs) =
     (case (if x = JUndefined \<or> x = JNull then Inr [] else to_string x) of
        Inl e \<Rightarrow> Inl e
      | Inr s \<Rightarrow> (case to_strings xs of Inl e \<Rightarrow> Inl e | Inr ss \<Rightarrow> Inr (s # ss)))"

subsection \<open>Properties\<close>

text \<open>
  \<^verbatim>\<open>v[key]\<close>: reading a property of \<^verbatim>\<open>null\<close> or \<^verbatim>\<open>undefined\<close>
  throws; an array and a string have their elements and their length; a missing
  property is \<^verbatim>\<open>undefined\<close>. The properties a value inherits from the built-in
  prototypes are functions, which every test of \<^verbatim>\<open>deepMerge\<close> treats as it treats
  \<^verbatim>\<open>undefined\<close>, and the server reads no name of theirs elsewhere: they are read
  as \<^verbatim>\<open>undefined\<close>. The one that is not a function, the accessor
  \<^verbatim>\<open>__proto__\<close>, is not modelled: a merge whose source has a property of that
  name is outside this theory.
\<close>

definition sq :: string where
  "sq = [CHR 0x27]"

definition cannot_read :: "string \<Rightarrow> string \<Rightarrow> exn" where
  "cannot_read v k =
     TypeError (''Cannot read properties of '' @ v @ '' (reading '' @ sq @ k @ sq @ '')'')"

fun get_prop :: "jsval \<Rightarrow> string \<Rightarrow> exn + jsval" where
  "get_prop JUndefined k = Inl (cannot_read ''undefined'' k)"
| "get_prop JNull k = Inl (cannot_read ''null'' k)"
| "get_prop (JObj a ps) k = (case map_of ps k of Some v \<Rightarrow> Inr v | None \<Rightarrow> Inr JUndefined)"
| "get_prop (JArr a xs) k =
     (case index_of_key k of
        Some i \<Rightarrow> Inr (if i < length xs then xs ! i else JUndefined)
      | None \<Rightarrow> Inr (if k = ''length'' then JNum (int (length xs)) else JUndefined))"
| "get_prop (JStr s) k =
     (case index_of_key k of
        Some i \<Rightarrow> Inr (if i < length s then JStr [s ! i] else JUndefined)
      | None \<Rightarrow> Inr (if k = ''length'' then JNum (int (length s)) else JUndefined))"
| "get_prop v k = Inr JUndefined"

fun indexed :: "nat \<Rightarrow> 'a list \<Rightarrow> (string \<times> 'a) list" where
  "indexed i [] = []"
| "indexed i (x # xs) = (show_nat i, x) # indexed (Suc i) xs"

text \<open>\<^verbatim>\<open>{ ...v }\<close>: the own enumerable properties of \<open>v\<close>, none for
  \<^verbatim>\<open>null\<close>.\<close>

fun spread :: "jsval \<Rightarrow> props" where
  "spread (JObj a ps) = ps"
| "spread (JArr a xs) = indexed 0 xs"
| "spread (JStr s) = indexed 0 (map (\<lambda>c. JStr [c]) s)"
| "spread v = []"

fun insert_index :: "nat \<Rightarrow> string \<Rightarrow> jsval \<Rightarrow> props \<Rightarrow> props" where
  "insert_index i k v [] = [(k, v)]"
| "insert_index i k v (p # ps) =
     (case index_of_key (fst p) of
        Some j \<Rightarrow> if j < i then p # insert_index i k v ps else (k, v) # p # ps
      | None \<Rightarrow> (k, v) # p # ps)"

text \<open>\<^verbatim>\<open>out[key] = v\<close> on a plain object: an existing property keeps its place, a
  new index key goes among the index keys, any other new key goes last. The key
  \<^verbatim>\<open>__proto__\<close> is written as any other key is, which is what the code does
  when \<^verbatim>\<open>out\<close> has that property of its own; when it has not, the assignment
  replaces the prototype of \<^verbatim>\<open>out\<close>, which this theory does not follow.\<close>

definition set_prop :: "props \<Rightarrow> string \<Rightarrow> jsval \<Rightarrow> props" where
  "set_prop out k v =
     (if k \<in> fst ` set out then AList.update k v out
      else case index_of_key k of
             Some i \<Rightarrow> insert_index i k v out
           | None \<Rightarrow> out @ [(k, v)])"

subsection \<open>Sets and maps of values\<close>

text \<open>What makes a value the one it is: for an array or an object its kind and its
  address (\<open>Some\<close>), for a primitive the value itself (\<open>None\<close>).\<close>

datatype kind = Array | Object

fun reference :: "jsval \<Rightarrow> (kind \<times> addr) option" where
  "reference (JArr a xs) = Some (Array, a)"
| "reference (JObj a ps) = Some (Object, a)"
| "reference v = None"

text \<open>A \<^verbatim>\<open>Set\<close> compares its members, and a \<^verbatim>\<open>Map\<close> its keys, by
  SameValueZero: primitives by value, arrays and objects by reference.\<close>

definition same_value_zero :: "jsval \<Rightarrow> jsval \<Rightarrow> bool" where
  "same_value_zero x y =
     (case reference x of Some r \<Rightarrow> reference y = Some r | None \<Rightarrow> x = y)"

definition set_has :: "jsval list \<Rightarrow> jsval \<Rightarrow> bool" where
  "set_has acc x = list_ex (\<lambda>y. same_value_zero y x) acc"

definition set_add :: "jsval list \<Rightarrow> jsval \<Rightarrow> jsval list" where
  "set_add acc x = (if set_has acc x then acc else acc @ [x])"

text \<open>\<^verbatim>\<open>Array.from(new Set(xs))\<close>: the members in insertion order.\<close>

definition js_set :: "jsval list \<Rightarrow> jsval list" where
  "js_set xs = foldl set_add [] xs"

text \<open>\<^verbatim>\<open>m.set(k, v)\<close> and \<^verbatim>\<open>m.get(k)\<close> on a \<^verbatim>\<open>Map\<close> in insertion
  order: a key that is there keeps its place.\<close>

fun map_set :: "(jsval \<times> 'v) list \<Rightarrow> jsval \<Rightarrow> 'v \<Rightarrow> (jsval \<times> 'v) list" where
  "map_set [] k v = [(k, v)]"
| "map_set (p # m) k v =
     (if same_value_zero (fst p) k then (fst p, v) # m else p # map_set m k v)"

fun map_get :: "(jsval \<times> 'v) list \<Rightarrow> jsval \<Rightarrow> 'v option" where
  "map_get [] k = None"
| "map_get (p # m) k = (if same_value_zero (fst p) k then Some (snd p) else map_get m k)"

section \<open>The configuration merger\<close>

text \<open>
  \<^verbatim>\<open>deepMerge(target, source)\<close>, lines 150 to 160. The loop over
  \<^verbatim>\<open>Object.keys(source)\<close> is \<open>merge_props\<close> for an object and
  \<open>merge_elems\<close> for an array, whose keys are its indices;
  \<^verbatim>\<open>Object.keys(null)\<close> throws. The loop reads \<^verbatim>\<open>target[key]\<close>, which
  throws when the target is \<^verbatim>\<open>null\<close>. The last argument is where the call
  allocates: \<^verbatim>\<open>out\<close> at the address \<open>a\<close>, and what the turn \<open>i\<close> of the loop
  creates, the array of line 155 or the objects of the nested call, under
  \<open>a @ [i]\<close>.
\<close>

fun deepMerge :: "jsval \<Rightarrow> jsval \<Rightarrow> addr \<Rightarrow> exn + jsval"
  and merge_props :: "jsval \<Rightarrow> props \<Rightarrow> props \<Rightarrow> addr \<Rightarrow> nat \<Rightarrow> exn + props"
  and merge_elems :: "jsval \<Rightarrow> props \<Rightarrow> jsval list \<Rightarrow> addr \<Rightarrow> nat \<Rightarrow> exn + props" where
  "deepMerge target source a =
     (if typeof target \<noteq> TyObject \<or> typeof source \<noteq> TyObject then Inr source
      else case source of
             JObj r ps \<Rightarrow>
               (case merge_props target (spread target) ps a 0 of
                  Inl e \<Rightarrow> Inl e | Inr out \<Rightarrow> Inr (JObj a out))
           | JArr r xs \<Rightarrow>
               (case merge_elems target (spread target) xs a 0 of
                  Inl e \<Rightarrow> Inl e | Inr out \<Rightarrow> Inr (JObj a out))
           | _ \<Rightarrow> Inl (TypeError ''Cannot convert undefined or null to object''))"
| "merge_props target out [] a i = Inr out"
| "merge_props target out ((key, s) # rest) a i =
     (case get_prop target key of
        Inl e \<Rightarrow> Inl e
      | Inr t \<Rightarrow>
          if isArray t \<and> isArray s
          then merge_props target
                 (set_prop out key (JArr (a @ [i]) (js_set (elems t @ elems s)))) rest a (Suc i)
          else if truthy s \<and> typeof s = TyObject
          then (case deepMerge t s (a @ [i]) of
                  Inl e \<Rightarrow> Inl e
                | Inr v \<Rightarrow> merge_props target (set_prop out key v) rest a (Suc i))
          else merge_props target (set_prop out key s) rest a (Suc i))"
| "merge_elems target out [] a i = Inr out"
| "merge_elems target out (s # rest) a i =
     (case get_prop target (show_nat i) of
        Inl e \<Rightarrow> Inl e
      | Inr t \<Rightarrow>
          if isArray t \<and> isArray s
          then merge_elems target
                 (set_prop out (show_nat i) (JArr (a @ [i]) (js_set (elems t @ elems s))))
                 rest a (Suc i)
          else if truthy s \<and> typeof s = TyObject
          then (case deepMerge t s (a @ [i]) of
                  Inl e \<Rightarrow> Inl e
                | Inr v \<Rightarrow> merge_elems target (set_prop out (show_nat i) v) rest a (Suc i))
          else merge_elems target (set_prop out (show_nat i) s) rest a (Suc i))"

section \<open>Notions for the merger's properties\<close>

text \<open>What one turn of the loop of \<^verbatim>\<open>deepMerge\<close> stores under its key (lines 155
  to 157), for the target's value \<open>t\<close> and the source's value \<open>s\<close>, allocating
  under \<open>a\<close>.\<close>

definition merge_value :: "jsval \<Rightarrow> jsval \<Rightarrow> addr \<Rightarrow> exn + jsval" where
  "merge_value t s a =
     (if isArray t \<and> isArray s then Inr (JArr a (js_set (elems t @ elems s)))
      else if truthy s \<and> typeof s = TyObject then deepMerge t s a
      else Inr s)"

text \<open>No two members of a list are the same value, as a \<^verbatim>\<open>Set\<close> compares
  them.\<close>

fun unrepeated :: "jsval list \<Rightarrow> bool" where
  "unrepeated [] = True"
| "unrepeated (x # xs) = (\<not> list_ex (same_value_zero x) xs \<and> unrepeated xs)"

text \<open>A value with no array in it, at any depth.\<close>

fun array_free :: "jsval \<Rightarrow> bool" and array_free_props :: "props \<Rightarrow> bool" where
  "array_free (JArr a xs) = False"
| "array_free (JObj a ps) = array_free_props ps"
| "array_free v = True"
| "array_free_props [] = True"
| "array_free_props (p # ps) = (array_free (snd p) \<and> array_free_props ps)"

text \<open>Every object of a value has its property names once, as every JavaScript
  object has.\<close>

fun distinct_keys :: "jsval \<Rightarrow> bool"
  and distinct_keys_props :: "props \<Rightarrow> bool"
  and distinct_keys_elems :: "jsval list \<Rightarrow> bool" where
  "distinct_keys (JArr a xs) = distinct_keys_elems xs"
| "distinct_keys (JObj a ps) = (distinct (map fst ps) \<and> distinct_keys_props ps)"
| "distinct_keys v = True"
| "distinct_keys_props [] = True"
| "distinct_keys_props (p # ps) = (distinct_keys (snd p) \<and> distinct_keys_props ps)"
| "distinct_keys_elems [] = True"
| "distinct_keys_elems (x # xs) = (distinct_keys x \<and> distinct_keys_elems xs)"

section \<open>The environment, the browser library and the state\<close>

text \<open>
  \<^verbatim>\<open>process.env\<close>. \<open>env_launch_options\<close> is what \<^verbatim>\<open>JSON.parse\<close> returns
  for \<^verbatim>\<open>PUPPETEER_LAUNCH_OPTIONS\<close>; it is \<open>None\<close> when the variable is unset or
  empty (then \<^verbatim>\<open>'{}'\<close> is parsed) and when it is not JSON (the \<^verbatim>\<open>catch\<close>
  keeps \<^verbatim>\<open>{}\<close>).
\<close>

record env =
  env_launch_options :: "jsval option"
  env_allow_dangerous :: "string option"
  env_docker_container :: "string option"

type_synonym browser = nat
type_synonym page = nat
type_synonym element = nat

text \<open>
  What lies outside the module during one tool call. The browser library is a black
  box: what its calls answer is a parameter. \<open>Some e\<close> and \<open>Inl e\<close> are a rejected
  promise. \<open>lib_evaluate\<close> answers with the script's result, given as what
  \<^verbatim>\<open>JSON.stringify(res, null, 2)\<close> will do with it in the template of line 206: the
  text it prints, or what it throws. \<open>lib_collect_logs\<close> answers with the lines the
  console shim collected. \<open>rt_fresh\<close> is where the runtime allocates the objects that
  the call creates: an address under which nothing lives yet.
\<close>

record world =
  lib_isConnected :: "browser \<Rightarrow> bool"
  lib_launch :: "jsval \<Rightarrow> exn + browser"
  lib_pages :: "browser \<Rightarrow> page list"
  lib_goto :: "page \<Rightarrow> jsval \<Rightarrow> exn option"
  lib_setViewport :: "page \<Rightarrow> jsval \<Rightarrow> jsval \<Rightarrow> exn option"
  lib_query :: "page \<Rightarrow> jsval \<Rightarrow> exn + element option"
  lib_element_screenshot :: "element \<Rightarrow> exn + string"
  lib_page_screenshot :: "page \<Rightarrow> exn + string"
  lib_click :: "page \<Rightarrow> jsval \<Rightarrow> exn option"
  lib_waitForSelector :: "page \<Rightarrow> jsval \<Rightarrow> exn option"
  lib_type :: "page \<Rightarrow> jsval \<Rightarrow> jsval \<Rightarrow> exn option"
  lib_select :: "page \<Rightarrow> jsval \<Rightarrow> jsval \<Rightarrow> exn option"
  lib_hover :: "page \<Rightarrow> jsval \<Rightarrow> exn option"
  lib_install_shim :: "page \<Rightarrow> exn option"
  lib_evaluate :: "page \<Rightarrow> jsval \<Rightarrow> exn + (exn + string)"
  lib_collect_logs :: "page \<Rightarrow> exn + string list"
  rt_fresh :: addr

text \<open>The calls that change the session or reach the client, in the order they are
  made: \<^verbatim>\<open>puppeteer.launch(cfg)\<close>, \<^verbatim>\<open>page.on('console', ...)\<close>,
  \<^verbatim>\<open>browser.close()\<close>, \<^verbatim>\<open>pg.setViewport\<close> and
  \<^verbatim>\<open>server.notification\<close> (its method and the \<^verbatim>\<open>uri\<close> of its params).\<close>

datatype effect =
    Launch jsval
  | Listen page
  | Close browser
  | SetViewport page jsval jsval
  | Notification string "string option"

text \<open>The module's global state (lines 100 to 105), and the trace of effects.\<close>

record state =
  browser :: "browser option"
  page :: "page option"
  consoleLogs :: "string list"
  screenshots :: "(jsval \<times> string) list"
  previousLaunchOptions :: jsval
  effects :: "effect list"

definition init_state :: state where
  "init_state =
     \<lparr>browser = None, page = None, consoleLogs = [], screenshots = [],
      previousLaunchOptions = JNull, effects = []\<rparr>"

section \<open>The session manager\<close>

definition DANGEROUS_ARGS :: "string list" where
  "DANGEROUS_ARGS =
     [''--no-sandbox'', ''--disable-setuid-sandbox'', ''--single-process'',
      ''--disable-web-security'', ''--ignore-certificate-errors'',
      ''--disable-features=IsolateOrigins'', ''--disable-site-isolation-trials'',
      ''--allow-running-insecure-content'']"

definition dangerous :: "string \<Rightarrow> bool" where
  "dangerous a = list_ex (\<lambda>d. prefix d a) DANGEROUS_ARGS"

fun is_string :: "jsval \<Rightarrow> bool" where
  "is_string (JStr s) = True"
| "is_string v = False"

fun str_of :: "jsval \<Rightarrow> string" where
  "str_of (JStr s) = s"
| "str_of v = []"

definition dangerous_message :: "string list \<Rightarrow> string" where
  "dangerous_message invalid = ''Dangerous args detected: '' @ join '', '' invalid"

text \<open>Line 107: the parameter \<^verbatim>\<open>{ launchOptions, allowDangerous }\<close> takes its
  properties from the argument, and throws when that is \<^verbatim>\<open>null\<close> or
  \<^verbatim>\<open>undefined\<close>.\<close>

definition cannot_destructure :: "string \<Rightarrow> jsval \<Rightarrow> exn" where
  "cannot_destructure k v =
     TypeError (''Cannot destructure property '' @ sq @ k @ sq @ '' of '' @ sq
                @ (if v = JNull then ''object null'' else ''undefined'') @ sq @ '' as it is ''
                @ (if v = JNull then ''null'' else ''undefined'') @ ''.'')"

definition destructure :: "jsval \<Rightarrow> string \<Rightarrow> exn + jsval" where
  "destructure v k =
     (if v = JNull \<or> v = JUndefined then Inl (cannot_destructure k v) else get_prop v k)"

text \<open>Lines 115 and 116: the environment's configuration, a new empty object when
  there is none.\<close>

definition envConfig :: "env \<Rightarrow> world \<Rightarrow> jsval" where
  "envConfig env w =
     (case env_launch_options env of None \<Rightarrow> JObj (rt_fresh w @ [0]) [] | Some v \<Rightarrow> v)"

definition allow_override :: "env \<Rightarrow> bool" where
  "allow_override env = (env_allow_dangerous env = Some ''true'')"

text \<open>What \<^verbatim>\<open>a.startsWith(d)\<close> throws when \<open>a\<close> is not a string.\<close>

definition not_a_string :: "jsval \<Rightarrow> exn" where
  "not_a_string a =
     (if a = JNull then cannot_read ''null'' ''startsWith''
      else if a = JUndefined then cannot_read ''undefined'' ''startsWith''
      else TypeError ''a.startsWith is not a function'')"

text \<open>
  Lines 119 to 124. \<^verbatim>\<open>filter\<close> exists on arrays only, and its callback calls
  \<^verbatim>\<open>a.startsWith\<close>, which exists on strings only: the first element that is not
  a string throws a \<^verbatim>\<open>TypeError\<close>.
\<close>

definition danger_filter :: "env \<Rightarrow> jsval \<Rightarrow> jsval \<Rightarrow> exn + unit" where
  "danger_filter env mergedConfig allowDangerous =
     (case get_prop mergedConfig ''args'' of
        Inl e \<Rightarrow> Inl e
      | Inr args \<Rightarrow>
          if truthy args then
            (case args of
               JArr a xs \<Rightarrow>
                 (case find (\<lambda>a. \<not> is_string a) xs of
                    Some a \<Rightarrow> Inl (not_a_string a)
                  | None \<Rightarrow>
                      (let invalid = filter dangerous (map str_of xs) in
                       if invalid \<noteq> [] \<and> \<not> (truthy allowDangerous \<or> allow_override env)
                       then Inl (Error (dangerous_message invalid))
                       else Inr ()))
             | _ \<Rightarrow> Inl (TypeError ''mergedConfig.args.filter is not a function''))
          else Inr ())"

text \<open>Lines 107 to 124, all that can reject the call before the session is touched:
  the parameter, the merge of line 117 and the danger filter. It answers with
  \<^verbatim>\<open>launchOptions\<close> and \<^verbatim>\<open>mergedConfig\<close>.\<close>

definition check_options :: "env \<Rightarrow> world \<Rightarrow> jsval \<Rightarrow> exn + jsval \<times> jsval" where
  "check_options env w args =
     (case destructure args ''launchOptions'' of
        Inl e \<Rightarrow> Inl e
      | Inr launchOptions \<Rightarrow>
     (case destructure args ''allowDangerous'' of
        Inl e \<Rightarrow> Inl e
      | Inr allowDangerous \<Rightarrow>
     (case deepMerge (envConfig env w)
             (if truthy launchOptions then launchOptions else JObj (rt_fresh w @ [1]) [])
             (rt_fresh w @ [2]) of
        Inl e \<Rightarrow> Inl e
      | Inr mergedConfig \<Rightarrow>
     (case danger_filter env mergedConfig allowDangerous of
        Inl e \<Rightarrow> Inl e
      | Inr u \<Rightarrow> Inr (launchOptions, mergedConfig)))))"

text \<open>
  What \<^verbatim>\<open>JSON.stringify(v)\<close> writes, up to its text: \<^verbatim>\<open>undefined\<close> has no
  text (\<open>None\<close>), an \<^verbatim>\<open>undefined\<close> element of an array is written as
  \<^verbatim>\<open>null\<close>, a property whose value is \<^verbatim>\<open>undefined\<close> is left out, the
  properties are written in their order, and no address is written. The text is
  one-to-one on what remains, so \<^verbatim>\<open>JSON.stringify(a) !== JSON.stringify(b)\<close> holds
  exactly when the two normal forms differ.
\<close>

fun json_norm :: "jsval \<Rightarrow> jsval option"
  and json_norm_elems :: "jsval list \<Rightarrow> jsval list"
  and json_norm_props :: "props \<Rightarrow> props" where
  "json_norm JUndefined = None"
| "json_norm (JArr a xs) = Some (JArr [] (json_norm_elems xs))"
| "json_norm (JObj a ps) = Some (JObj [] (json_norm_props ps))"
| "json_norm v = Some v"
| "json_norm_elems [] = []"
| "json_norm_elems (x # xs) =
     (case json_norm x of None \<Rightarrow> JNull | Some v \<Rightarrow> v) # json_norm_elems xs"
| "json_norm_props [] = []"
| "json_norm_props (p # ps) =
     (case json_norm (snd p) of
        None \<Rightarrow> json_norm_props ps
      | Some v \<Rightarrow> (fst p, v) # json_norm_props ps)"

definition json_differs :: "jsval \<Rightarrow> jsval \<Rightarrow> bool" where
  "json_differs a b = (json_norm a \<noteq> json_norm b)"

text \<open>Lines 127 to 132. Whether \<^verbatim>\<open>browser.close()\<close> resolves or throws, the
  handle is dropped: the \<^verbatim>\<open>catch\<close> sets it to \<^verbatim>\<open>null\<close> as well.\<close>

definition close_stale :: "world \<Rightarrow> jsval \<Rightarrow> state \<Rightarrow> state" where
  "close_stale w launchOptions st =
     (case browser st of
        None \<Rightarrow> st
      | Some b \<Rightarrow>
          if \<not> lib_isConnected w b
          then st\<lparr>browser := None, effects := effects st @ [Close b]\<rparr>
          else if truthy launchOptions \<and> json_differs launchOptions (previousLaunchOptions st)
          then st\<lparr>browser := None, effects := effects st @ [Close b]\<rparr>
          else st)"

text \<open>Lines 136 to 138, allocated at \<open>a\<close>.\<close>

definition defaults :: "env \<Rightarrow> addr \<Rightarrow> jsval" where
  "defaults env a =
     (if env_docker_container env \<noteq> None \<and> env_docker_container env \<noteq> Some []
      then JObj a [(''headless'', JBool True),
                   (''args'', JArr (a @ [0]) [JStr ''--no-sandbox'', JStr ''--single-process'',
                                              JStr ''--no-zygote''])]
      else JObj a [(''headless'', JBool False)])"

text \<open>Lines 135 to 146: launch, take the first page and listen to its console.
  \<^verbatim>\<open>pages[0]\<close> of an empty list is \<^verbatim>\<open>undefined\<close>, and
  \<^verbatim>\<open>page.on\<close> throws on it.\<close>

definition launch_browser :: "env \<Rightarrow> world \<Rightarrow> jsval \<Rightarrow> state \<Rightarrow> (exn + page option) \<times> state" where
  "launch_browser env w mergedConfig st =
     (case deepMerge (defaults env (rt_fresh w @ [3])) mergedConfig (rt_fresh w @ [4]) of
        Inl e \<Rightarrow> (Inl e, st)
      | Inr cfg \<Rightarrow>
          (case lib_launch w cfg of
             Inl e \<Rightarrow> (Inl e, st\<lparr>effects := effects st @ [Launch cfg]\<rparr>)
           | Inr b \<Rightarrow>
               (case lib_pages w b of
                  [] \<Rightarrow>
                    (Inl (cannot_read ''undefined'' ''on''),
                     st\<lparr>browser := Some b, page := None,
                        effects := effects st @ [Launch cfg]\<rparr>)
                | p # ps \<Rightarrow>
                    (Inr (Some p),
                     st\<lparr>browser := Some b, page := Some p,
                        effects := effects st @ [Launch cfg, Listen p]\<rparr>))))"

text \<open>\<^verbatim>\<open>ensureBrowser({ launchOptions, allowDangerous })\<close>, lines 107 to 148. It
  answers with the value of \<^verbatim>\<open>page!\<close>, or throws.\<close>

definition ensureBrowser :: "env \<Rightarrow> world \<Rightarrow> jsval \<Rightarrow> state \<Rightarrow> (exn + page option) \<times> state" where
  "ensureBrowser env w args st =
     (case check_options env w args of
        Inl e \<Rightarrow> (Inl e, st)
      | Inr (launchOptions, mergedConfig) \<Rightarrow>
          (let st1 = (close_stale w launchOptions st)\<lparr>previousLaunchOptions := launchOptions\<rparr>
           in if browser st1 = None then launch_browser env w mergedConfig st1
              else (Inr (page st1), st1)))"

text \<open>The console listener of line 142, called by the page with a message's type and
  text.\<close>

definition on_console :: "string \<Rightarrow> string \<Rightarrow> state \<Rightarrow> state" where
  "on_console ty txt st =
     st\<lparr>consoleLogs := consoleLogs st @ [''['' @ ty @ ''] '' @ txt],
        effects := effects st @ [Notification ''notifications/resources/updated''
                                   (Some ''console://logs'')]\<rparr>"

section \<open>The tool dispatcher\<close>

datatype content = TextContent string | ImageContent string string

record CallToolResult =
  content :: "content list"
  isError :: bool

definition text_result :: "string \<Rightarrow> bool \<Rightarrow> CallToolResult" where
  "text_result t e = \<lparr>content = [TextContent t], isError = e\<rparr>"

definition TOOLS :: "string list" where
  "TOOLS =
     [''puppeteer_navigate'', ''puppeteer_screenshot'', ''puppeteer_click'', ''puppeteer_fill'',
      ''puppeteer_select'', ''puppeteer_hover'', ''puppeteer_evaluate'']"

definition nl :: string where
  "nl = [CHR 0x0A]"

text \<open>\<^verbatim>\<open>args.key\<close> in the dispatcher: \<^verbatim>\<open>ensureBrowser\<close> has destructured
  \<^verbatim>\<open>args\<close> before, so it is neither \<^verbatim>\<open>null\<close> nor \<^verbatim>\<open>undefined\<close>
  and the read does not throw.\<close>

definition arg :: "jsval \<Rightarrow> string \<Rightarrow> jsval" where
  "arg args k = (case get_prop args k of Inl e \<Rightarrow> JUndefined | Inr v \<Rightarrow> v)"

text \<open>\<^verbatim>\<open>v ?? d\<close>\<close>

definition nullish_or :: "jsval \<Rightarrow> jsval \<Rightarrow> jsval" where
  "nullish_or v d = (if v = JUndefined \<or> v = JNull then d else v)"

text \<open>\<^verbatim>\<open>await pg.m(...)\<close>: a call on the page \<^verbatim>\<open>ensureBrowser\<close> answered
  with, which throws when that is \<^verbatim>\<open>undefined\<close>.\<close>

definition on_page :: "page option \<Rightarrow> string \<Rightarrow> (page \<Rightarrow> exn option) \<Rightarrow> exn option" where
  "on_page pg m f = (case pg of None \<Rightarrow> Some (cannot_read ''undefined'' m) | Some p \<Rightarrow> f p)"

definition and_then :: "exn option \<Rightarrow> exn option \<Rightarrow> exn option" where
  "and_then a b = (case a of Some e \<Rightarrow> Some e | None \<Rightarrow> b)"

text \<open>Lines 165 to 167: no \<^verbatim>\<open>try\<close> around \<^verbatim>\<open>pg.goto\<close>, nor around the
  template of the result.\<close>

definition navigate :: "world \<Rightarrow> page option \<Rightarrow> jsval \<Rightarrow> state \<Rightarrow> (exn + CallToolResult) \<times> state" where
  "navigate w pg args st =
     (case on_page pg ''goto'' (\<lambda>p. lib_goto w p (arg args ''url'')) of
        Some e \<Rightarrow> (Inl e, st)
      | None \<Rightarrow>
          (case to_string (arg args ''url'') of
             Inl e \<Rightarrow> (Inl e, st)
           | Inr url \<Rightarrow> (Inr (text_result (''Navigated to '' @ url) False), st)))"

text \<open>Line 172: the element of \<^verbatim>\<open>args.selector\<close> when there is a selector
  (\<^verbatim>\<open>undefined\<close> when no element matches), the whole page otherwise.\<close>

definition capture :: "world \<Rightarrow> page \<Rightarrow> jsval \<Rightarrow> exn + string option" where
  "capture w p selector =
     (if truthy selector then
        (case lib_query w p selector of
           Inl e \<Rightarrow> Inl e
         | Inr None \<Rightarrow> Inr None
         | Inr (Some el) \<Rightarrow>
             (case lib_element_screenshot w el of Inl e \<Rightarrow> Inl e | Inr shot \<Rightarrow> Inr (Some shot)))
      else (case lib_page_screenshot w p of Inl e \<Rightarrow> Inl e | Inr shot \<Rightarrow> Inr (Some shot)))"

text \<open>Lines 173 to 182, once the capture has answered: the image is stored (line
  174), then the template of line 175 prints the name for the first notification, then
  the template of line 178 prints the name, the width and the height. A template that
  throws ends the call there.\<close>

definition store_shot :: "jsval \<Rightarrow> jsval \<Rightarrow> jsval \<Rightarrow> jsval \<Rightarrow> string option \<Rightarrow> state \<Rightarrow> (exn + CallToolResult) \<times> state" where
  "store_shot name wd ht encoded shot st =
     (case shot of
        None \<Rightarrow> (Inr (text_result ''Screenshot failed'' True), st)
      | Some data \<Rightarrow>
          if data = [] then (Inr (text_result ''Screenshot failed'' True), st)
          else
            (let st1 = st\<lparr>screenshots := map_set (screenshots st) name data\<rparr>
             in case to_string name of
                  Inl e \<Rightarrow> (Inl e, st1)
                | Inr n \<Rightarrow>
                    (let st2 = st1\<lparr>effects := effects st1 @
                           [Notification ''notifications/resources/updated''
                              (Some (''screenshot://'' @ n)),
                            Notification ''notifications/resources/list_changed'' None]\<rparr>
                     in case to_string wd of
                          Inl e \<Rightarrow> (Inl e, st2)
                        | Inr x \<Rightarrow>
                            (case to_string ht of
                               Inl e \<Rightarrow> (Inl e, st2)
                             | Inr y \<Rightarrow>
                                 (Inr \<lparr>content =
                                         [TextContent (''Screenshot '' @ sq @ n @ sq @ '' at ''
                                                       @ x @ ''x'' @ y),
                                          if truthy encoded
                                          then TextContent (''data:image/png;base64,'' @ data)
                                          else ImageContent data ''image/png''],
                                       isError = False\<rparr>,
                                  st2)))))"

text \<open>Lines 169 to 183: no \<^verbatim>\<open>try\<close> around the viewport and the capture.\<close>

definition screenshot :: "world \<Rightarrow> page option \<Rightarrow> jsval \<Rightarrow> state \<Rightarrow> (exn + CallToolResult) \<times> state" where
  "screenshot w pg args st =
     (let wd = nullish_or (arg args ''width'') (JNum 800);
          ht = nullish_or (arg args ''height'') (JNum 600)
      in case pg of
           None \<Rightarrow> (Inl (cannot_read ''undefined'' ''setViewport''), st)
         | Some p \<Rightarrow>
             (let st1 = st\<lparr>effects := effects st @ [SetViewport p wd ht]\<rparr>
              in case lib_setViewport w p wd ht of
                   Some e \<Rightarrow> (Inl e, st1)
                 | None \<Rightarrow>
                     (case capture w p (arg args ''selector'') of
                        Inl e \<Rightarrow> (Inl e, st1)
                      | Inr shot \<Rightarrow>
                          store_shot (arg args ''name'') wd ht (arg args ''encoded'') shot st1)))"

text \<open>Lines 185 to 199: each of these catches what its calls and the template of its
  result throw.\<close>

definition caught :: "string \<Rightarrow> jsval \<Rightarrow> string \<Rightarrow> exn option \<Rightarrow> CallToolResult" where
  "caught done selector failed r =
     (case r of
        Some e \<Rightarrow> text_result (failed @ message e) True
      | None \<Rightarrow>
          (case to_string selector of
             Inl e \<Rightarrow> text_result (failed @ message e) True
           | Inr s \<Rightarrow> text_result (done @ s) False))"

definition click :: "world \<Rightarrow> page option \<Rightarrow> jsval \<Rightarrow> CallToolResult" where
  "click w pg args =
     caught ''Clicked '' (arg args ''selector'') ''Click failed: ''
       (on_page pg ''click'' (\<lambda>p. lib_click w p (arg args ''selector'')))"

definition fill :: "world \<Rightarrow> page option \<Rightarrow> jsval \<Rightarrow> CallToolResult" where
  "fill w pg args =
     caught ''Filled '' (arg args ''selector'') ''Fill failed: ''
       (on_page pg ''waitForSelector'' (\<lambda>p.
          and_then (lib_waitForSelector w p (arg args ''selector''))
            (lib_type w p (arg args ''selector'') (arg args ''value''))))"

definition select :: "world \<Rightarrow> page option \<Rightarrow> jsval \<Rightarrow> CallToolResult" where
  "select w pg args =
     caught ''Selected '' (arg args ''selector'') ''Select failed: ''
       (on_page pg ''waitForSelector'' (\<lambda>p.
          and_then (lib_waitForSelector w p (arg args ''selector''))
            (lib_select w p (arg args ''selector'') (arg args ''value''))))"

definition hover :: "world \<Rightarrow> page option \<Rightarrow> jsval \<Rightarrow> CallToolResult" where
  "hover w pg args =
     caught ''Hovered '' (arg args ''selector'') ''Hover failed: ''
       (on_page pg ''waitForSelector'' (\<lambda>p.
          and_then (lib_waitForSelector w p (arg args ''selector''))
            (lib_hover w p (arg args ''selector''))))"

text \<open>Lines 201 to 207.\<close>

definition evaluate :: "world \<Rightarrow> page option \<Rightarrow> jsval \<Rightarrow> CallToolResult" where
  "evaluate w pg args =
     (let failed = (\<lambda>e. text_result (''Eval failed: '' @ message e) True)
      in case pg of
           None \<Rightarrow> failed (cannot_read ''undefined'' ''evaluate'')
         | Some p \<Rightarrow>
             (case lib_install_shim w p of
                Some e \<Rightarrow> failed e
              | None \<Rightarrow>
                  (case lib_evaluate w p (arg args ''script'') of
                     Inl e \<Rightarrow> failed e
                   | Inr res \<Rightarrow>
                       (case lib_collect_logs w p of
                          Inl e \<Rightarrow> failed e
                        | Inr logs \<Rightarrow>
                            (case res of
                               Inl e \<Rightarrow> failed e
                             | Inr printed \<Rightarrow>
                                 text_result
                                   (''Result:'' @ nl @ printed @ nl @ ''Logs:'' @ nl
                                    @ join nl logs)
                                   False)))))"

text \<open>\<^verbatim>\<open>handleToolCall(name, args)\<close>, lines 162 to 212: the session is ensured first,
  for every name, then the \<^verbatim>\<open>switch\<close> runs.\<close>

definition handleToolCall :: "env \<Rightarrow> world \<Rightarrow> string \<Rightarrow> jsval \<Rightarrow> state \<Rightarrow> (exn + CallToolResult) \<times> state" where
  "handleToolCall env w name args st =
     (case ensureBrowser env w args st of
        (Inl e, st1) \<Rightarrow> (Inl e, st1)
      | (Inr pg, st1) \<Rightarrow>
          if name = ''puppeteer_navigate'' then navigate w pg args st1
          else if name = ''puppeteer_screenshot'' then screenshot w pg args st1
          else if name = ''puppeteer_click'' then (Inr (click w pg args), st1)
          else if name = ''puppeteer_fill'' then (Inr (fill w pg args), st1)
          else if name = ''puppeteer_select'' then (Inr (select w pg args), st1)
          else if name = ''puppeteer_hover'' then (Inr (hover w pg args), st1)
          else if name = ''puppeteer_evaluate'' then (Inr (evaluate w pg args), st1)
          else (Inr (text_result (''Unknown tool: '' @ name) True), st1))"

text \<open>The handler of \<^verbatim>\<open>CallToolRequestSchema\<close>, line 235.\<close>

definition call_tool :: "env \<Rightarrow> world \<Rightarrow> string \<Rightarrow> jsval \<Rightarrow> state \<Rightarrow> (exn + CallToolResult) \<times> state" where
  "call_tool env w name arguments st =
     handleToolCall env w name
       (if truthy arguments then arguments else JObj (rt_fresh w @ [5]) []) st"

section \<open>The resources\<close>

record resource =
  res_uri :: string
  res_mimeType :: string
  res_name :: string

text \<open>The handler of \<^verbatim>\<open>ListResourcesRequestSchema\<close>, lines 219 to 222: one
  resource for every key of the map, whose two templates print the key.\<close>

fun screenshot_resources :: "jsval list \<Rightarrow> exn + resource list" where
  "screenshot_resources [] = Inr []"
| "screenshot_resources (n # ns) =
     (case to_string n of
        Inl e \<Rightarrow> Inl e
      | Inr s \<Rightarrow>
          (case screenshot_resources ns of
             Inl e \<Rightarrow> Inl e
           | Inr rs \<Rightarrow>
               Inr (\<lparr>res_uri = ''screenshot://'' @ s, res_mimeType = ''image/png'',
                     res_name = ''Screenshot: '' @ s\<rparr> # rs)))"

definition list_resources :: "state \<Rightarrow> exn + resource list" where
  "list_resources st =
     (case screenshot_resources (map fst (screenshots st)) of
        Inl e \<Rightarrow> Inl e
      | Inr rs \<Rightarrow>
          Inr (\<lparr>res_uri = ''console://logs'', res_mimeType = ''text/plain'',
                res_name = ''Browser console logs''\<rparr> # rs))"

text \<open>\<^verbatim>\<open>s.split(sep)\<close>: \<open>cur\<close> is the piece read so far.\<close>

function split_from :: "string \<Rightarrow> string \<Rightarrow> string \<Rightarrow> string list" where
  "split_from sep cur [] = [cur]"
| "split_from sep cur (c # cs) =
     (if sep \<noteq> [] \<and> prefix sep (c # cs)
      then cur # split_from sep [] (drop (length sep) (c # cs))
      else split_from sep (cur @ [c]) cs)"
  by pat_completeness auto
termination
  by (relation "measure (\<lambda>(sep, cur, s). length s)") auto

definition split :: "string \<Rightarrow> string \<Rightarrow> string list" where
  "split s sep = (if sep = [] then map (\<lambda>c. [c]) s else split_from sep [] s)"

datatype contents =
    TextResource string string string
  | BlobResource string string string

text \<open>The handler of \<^verbatim>\<open>ReadResourceRequestSchema\<close>, lines 224 to 232.
  \<^verbatim>\<open>uri.split('://')[1]\<close> is \<^verbatim>\<open>undefined\<close> when there is no second
  piece.\<close>

definition read_resource :: "state \<Rightarrow> string \<Rightarrow> exn + contents" where
  "read_resource st uri =
     (if uri = ''console://logs''
      then Inr (TextResource uri ''text/plain'' (join nl (consoleLogs st)))
      else
        (let not_found = Inl (Error (''Resource not found: '' @ uri))
         in if prefix ''screenshot://'' uri then
              (let pieces = split uri ''://'';
                   n = (if 1 < length pieces then JStr (pieces ! 1) else JUndefined)
               in case map_get (screenshots st) n of
                    Some b \<Rightarrow> if b \<noteq> [] then Inr (BlobResource uri ''image/png'' b) else not_found
                  | None \<Rightarrow> not_found)
            else not_found))"

section \<open>Sequences of calls\<close>

text \<open>A call of a tool: what lies outside during it, the tool's name and its
  arguments. \<open>run\<close> is the state after a sequence of calls.\<close>

type_synonym call = "world \<times> string \<times> jsval"

definition run :: "env \<Rightarrow> call list \<Rightarrow> state \<Rightarrow> state" where
  "run env calls st =
     foldl (\<lambda>s (w, name, args). snd (handleToolCall env w name args s)) st calls"

text \<open>The launch options of the latest call of a sequence that passed the parameter,
  the merge and the danger filter; \<^verbatim>\<open>null\<close> when none did.\<close>

definition latest_options :: "env \<Rightarrow> call list \<Rightarrow> jsval" where
  "latest_options env calls =
     foldl (\<lambda>prev (w, name, args).
              case check_options env w args of Inl e \<Rightarrow> prev | Inr (lo, merged) \<Rightarrow> lo)
       JNull calls"

section \<open>Concrete inputs\<close>

text \<open>The objects of a request and of the environment live at the addresses \<open>[1]\<close>,
  \<open>[2]\<close>, ... and below them; a call allocates under \<open>[0]\<close>.\<close>

text \<open>A library whose calls all succeed: a launch answers with browser 1, whose only
  page is page 1.\<close>

definition quiet_world :: world where
  "quiet_world =
     \<lparr>lib_isConnected = (\<lambda>b. True), lib_launch = (\<lambda>cfg. Inr 1), lib_pages = (\<lambda>b. [b]),
      lib_goto = (\<lambda>p u. None), lib_setViewport = (\<lambda>p x y. None),
      lib_query = (\<lambda>p s. Inr None), lib_element_screenshot = (\<lambda>e. Inr ''iVBORw0KGgo=''),
      lib_page_screenshot = (\<lambda>p. Inr ''iVBORw0KGgo=''), lib_click = (\<lambda>p s. None),
      lib_waitForSelector = (\<lambda>p s. None), lib_type = (\<lambda>p s v. None),
      lib_select = (\<lambda>p s v. None), lib_hover = (\<lambda>p s. None),
      lib_install_shim = (\<lambda>p. None), lib_evaluate = (\<lambda>p s. Inr (Inr ''2'')),
      lib_collect_logs = (\<lambda>p. Inr []), rt_fresh = [0, 0]\<rparr>"

definition plain_env :: env where
  "plain_env =
     \<lparr>env_launch_options = None, env_allow_dangerous = None, env_docker_container = None\<rparr>"

definition sandbox_options :: jsval where
  "sandbox_options =
     JObj [1, 0] [(''args'', JArr [1, 0, 0] [JStr ''--no-sandbox'', JStr ''--window-size=800,600''])]"

definition sandbox_args :: jsval where
  "sandbox_args =
     JObj [1] [(''url'', JStr ''https://example.com''), (''launchOptions'', sandbox_options)]"

text \<open>The configuration that a launch without options gets, and the state after a
  first call without launch options, under \<open>plain_env\<close> and \<open>quiet_world\<close>.\<close>

definition plain_config :: jsval where
  "plain_config = JObj [0, 0, 4] [(''headless'', JBool False)]"

definition launched_state :: state where
  "launched_state =
     \<lparr>browser = Some 1, page = Some 1, consoleLogs = [], screenshots = [],
      previousLaunchOptions = JUndefined,
      effects = [Launch plain_config, Listen 1]\<rparr>"

text \<open>A library that cannot resolve the host of a navigation.\<close>

definition offline_world :: world where
  "offline_world =
     quiet_world\<lparr>lib_goto :=
       (\<lambda>p u. Some (Error ''net::ERR_NAME_NOT_RESOLVED at http://nonexistent.invalid''))\<rparr>"

text \<open>A library that cannot capture the page.\<close>

definition blind_world :: world where
  "blind_world =
     quiet_world\<lparr>lib_page_screenshot :=
       (\<lambda>p. Inl (Error ''Protocol error (Page.captureScreenshot): Unable to capture screenshot''))\<rparr>"

text \<open>A library whose page screenshot is \<open>data\<close>, and the state after two screenshot
  calls, named \<^verbatim>\<open>a\<close> and \<^verbatim>\<open>a://b\<close>.\<close>

definition shot_world :: "string \<Rightarrow> world" where
  "shot_world data = quiet_world\<lparr>lib_page_screenshot := (\<lambda>p. Inr data)\<rparr>"

definition two_shots :: state where
  "two_shots =
     run plain_env
       [(shot_world ''QUFB'', ''puppeteer_screenshot'', JObj [1] [(''name'', JStr ''a'')]),
        (shot_world ''QkJC'', ''puppeteer_screenshot'', JObj [2] [(''name'', JStr ''a://b'')])]
       init_state"



text \<open>Three calls: a navigation with launch options creates the session, a click
  carries no launch options, and a navigation with the same launch options comes again,
  when a launch answers with browser 2. The third request is parsed anew: its objects
  are equal to those of the first and live elsewhere.\<close>

definition headless_options :: jsval where
  "headless_options = JObj [2, 0] [(''headless'', JBool True)]"

definition headless_args :: jsval where
  "headless_args =
     JObj [2] [(''url'', JStr ''https://example.com''), (''launchOptions'', headless_options)]"

definition click_args :: jsval where
  "click_args = JObj [3] [(''selector'', JStr ''#go'')]"

definition headless_options_again :: jsval where
  "headless_options_again = JObj [4, 0] [(''headless'', JBool True)]"

definition headless_args_again :: jsval where
  "headless_args_again =
     JObj [4] [(''url'', JStr ''https://example.com''),
               (''launchOptions'', headless_options_again)]"

definition second_world :: world where
  "second_world = quiet_world\<lparr>lib_launch := (\<lambda>cfg. Inr 2), rt_fresh := [0, 1]\<rparr>"

definition headless_config :: "addr \<Rightarrow> jsval" where
  "headless_config a = JObj a [(''headless'', JBool True)]"

definition created_state :: state where
  "created_state =
     \<lparr>browser = Some 1, page = Some 1, consoleLogs = [], screenshots = [],
      previousLaunchOptions = headless_options,
      effects = [Launch (headless_config [0, 0, 4]), Listen 1]\<rparr>"

text \<open>An environment whose \<^verbatim>\<open>PUPPETEER_LAUNCH_OPTIONS\<close> is
  \<^verbatim>\<open>{"headless":true}\<close>, and a first call under it with the launch options
  \<^verbatim>\<open>{}\<close>.\<close>

definition headless_env :: env where
  "headless_env = plain_env\<lparr>env_launch_options := Some (JObj [5] [(''headless'', JBool True)])\<rparr>"

definition empty_options_args :: jsval where
  "empty_options_args =
     JObj [1] [(''url'', JStr ''https://example.com''), (''launchOptions'', JObj [1, 0] [])]"

definition reused_state :: state where
  "reused_state =
     \<lparr>browser = Some 1, page = Some 1, consoleLogs = [], screenshots = [],
      previousLaunchOptions = JObj [1, 0] [],
      effects = [Launch (headless_config [0, 0, 4]), Listen 1]\<rparr>"

text \<open>Configurations to merge, and an environment whose
  \<^verbatim>\<open>PUPPETEER_LAUNCH_OPTIONS\<close> is \<^verbatim>\<open>{"defaultViewport":null}\<close>.\<close>

definition base_config :: jsval where
  "base_config =
     JObj [1] [(''headless'', JBool False),
               (''args'', JArr [1, 0] [JStr ''--mute-audio'', JStr ''--window-size=800,600'']),
               (''defaultViewport'', JObj [1, 1] [(''width'', JNum 800)])]"

definition args_override :: props where
  "args_override =
     [(''args'', JArr [2, 0] [JStr ''--window-size=800,600'', JStr ''--lang=en'',
                              JStr ''--lang=en''])]"

definition plain_override :: props where
  "plain_override =
     [(''headless'', JBool True), (''defaultViewport'', JObj [2, 0] [(''height'', JNum 600)])]"

text \<open>Two configurations parsed from the same text
  \<^verbatim>\<open>{"plugins":[{"name":"stealth"}]}\<close>.\<close>

definition plugins_base :: jsval where
  "plugins_base =
     JObj [1] [(''plugins'', JArr [1, 0] [JObj [1, 0, 0] [(''name'', JStr ''stealth'')]])]"

definition plugins_override :: jsval where
  "plugins_override =
     JObj [2] [(''plugins'', JArr [2, 0] [JObj [2, 0, 0] [(''name'', JStr ''stealth'')]])]"

definition viewport_env :: env where
  "viewport_env =
     plain_env\<lparr>env_launch_options := Some (JObj [5] [(''defaultViewport'', JNull)])\<rparr>"

definition viewport_args :: jsval where
  "viewport_args =
     JObj [1] [(''url'', JStr ''https://example.com''),
               (''launchOptions'',
                JObj [1, 0] [(''defaultViewport'',
                              JObj [1, 0, 0] [(''width'', JNum 1280), (''height'', JNum 720)])])]"

section \<open>Evaluation\<close>

declare deepMerge.simps [simp del] show_nat.simps [simp del] bit_length.simps [simp del]

lemmas js_eval = deepMerge.simps set_prop_def index_of_key_def is_digit_def read_nat_def
  js_set_def set_add_def set_has_def same_value_zero_def

lemma show_small: "n < 2 ^ 53 \<Longrightarrow> show_number (int n) = show_nat n"
  by (simp add: show_number_def)

section \<open>The danger filter\<close>

lemma sublist_in_append: "sublist a y \<Longrightarrow> sublist a (p @ y)"
  unfolding sublist_def by (metis append.assoc)

lemma join_sublist: "a \<in> set xs \<Longrightarrow> sublist a (join sep xs)"
proof (induction sep xs rule: join.induct)
  case (3 sep x y ys)
  show ?case
  proof (cases "a = x")
    case True
    then show ?thesis by simp
  next
    case False
    with 3 have "sublist a (join sep (y # ys))" by simp
    then have "sublist a ((x @ sep) @ join sep (y # ys))" by (rule sublist_in_append)
    then show ?thesis by simp
  qed
qed simp_all

lemma dangerous_message_names: "a \<in> set invalid \<Longrightarrow> sublist a (dangerous_message invalid)"
  unfolding dangerous_message_def by (intro sublist_in_append join_sublist)

lemma destructure_read: "get_prop v k = Inr x \<Longrightarrow> destructure v k' = get_prop v k'"
  by (cases v) (simp_all add: destructure_def)

text \<open>
  C1. Let the merged configuration (the environment's configuration merged with the
  call's \<^verbatim>\<open>launchOptions\<close>) hold a list of strings under \<^verbatim>\<open>args\<close>. If an
  element starts with a deny-listed prefix, \<^verbatim>\<open>allowDangerous\<close> is not truthy and
  \<^verbatim>\<open>ALLOW_DANGEROUS\<close> is not \<^verbatim>\<open>'true'\<close>, then \<^verbatim>\<open>ensureBrowser\<close> throws
  the error whose message joins the matched arguments, each of which stands in it
  verbatim, and the state is the one before the call: no handle and no
  \<^verbatim>\<open>previousLaunchOptions\<close> changed, no launch and no close made. With either
  override the filter accepts, and a list with no such element is accepted whatever the
  overrides are.
\<close>

theorem danger_filter_rejects:
  assumes lo: "get_prop args ''launchOptions'' = Inr lo"
    and ad: "get_prop args ''allowDangerous'' = Inr ad"
    and merged: "deepMerge (envConfig env w)
                   (if truthy lo then lo else JObj (rt_fresh w @ [1]) []) (rt_fresh w @ [2])
                 = Inr merged"
    and xs: "get_prop merged ''args'' = Inr (JArr a xs)" "list_all is_string xs"
  shows "(list_ex dangerous (map str_of xs) \<and> \<not> truthy ad \<and> \<not> allow_override env \<longrightarrow>
           ensureBrowser env w args st =
             (Inl (Error (dangerous_message (filter dangerous (map str_of xs)))), st)
           \<and> list_all (\<lambda>a. sublist a (dangerous_message (filter dangerous (map str_of xs))))
               (filter dangerous (map str_of xs)))
       \<and> (truthy ad \<or> allow_override env \<longrightarrow> danger_filter env merged ad = Inr ())
       \<and> (\<not> list_ex dangerous (map str_of xs) \<longrightarrow> danger_filter env merged ad = Inr ())"
proof (intro conjI impI)
  assume h: "list_ex dangerous (map str_of xs) \<and> \<not> truthy ad \<and> \<not> allow_override env"
  from xs(2) have strings: "find (\<lambda>a. \<not> is_string a) xs = None"
    by (simp add: find_None_iff list_all_iff)
  from h have ne: "filter dangerous (map str_of xs) \<noteq> []"
    by (auto simp: list_ex_iff filter_empty_conv)
  with h xs strings have "danger_filter env merged ad =
      Inl (Error (dangerous_message (filter dangerous (map str_of xs))))"
    by (simp add: danger_filter_def)
  moreover have "destructure args ''launchOptions'' = Inr lo"
    "destructure args ''allowDangerous'' = Inr ad"
    using lo ad by (simp_all add: destructure_read [OF lo])
  ultimately show "ensureBrowser env w args st =
      (Inl (Error (dangerous_message (filter dangerous (map str_of xs)))), st)"
    using merged by (simp add: ensureBrowser_def check_options_def)
  show "list_all (\<lambda>a. sublist a (dangerous_message (filter dangerous (map str_of xs))))
               (filter dangerous (map str_of xs))"
    unfolding list_all_iff using dangerous_message_names by blast
next
  assume "truthy ad \<or> allow_override env"
  moreover from xs(2) have "find (\<lambda>a. \<not> is_string a) xs = None"
    by (simp add: find_None_iff list_all_iff)
  ultimately show "danger_filter env merged ad = Inr ()"
    using xs by (simp add: danger_filter_def)
next
  assume "\<not> list_ex dangerous (map str_of xs)"
  then have "filter dangerous (map str_of xs) = []"
    by (auto simp: list_ex_iff filter_empty_conv)
  moreover from xs(2) have "find (\<lambda>a. \<not> is_string a) xs = None"
    by (simp add: find_None_iff list_all_iff)
  ultimately show "danger_filter env merged ad = Inr ()"
    using xs by (simp add: danger_filter_def)
qed

lemma merge_sandbox_options:
  "deepMerge (envConfig plain_env w) sandbox_options a =
     Inr (JObj a
            [(''args'', JArr [1, 0, 0] [JStr ''--no-sandbox'', JStr ''--window-size=800,600''])])"
  by (simp add: envConfig_def plain_env_def sandbox_options_def js_eval)

lemma rejects_sandbox:
  "check_options plain_env w sandbox_args = Inl (Error ''Dangerous args detected: --no-sandbox'')"
proof -
  have "destructure sandbox_args ''launchOptions'' = Inr sandbox_options"
    "destructure sandbox_args ''allowDangerous'' = Inr JUndefined"
    "truthy sandbox_options"
    by (simp_all add: destructure_def sandbox_args_def sandbox_options_def)
  moreover have "\<not> allow_override plain_env"
    by (simp add: allow_override_def plain_env_def)
  ultimately show ?thesis
    by (simp add: check_options_def merge_sandbox_options danger_filter_def dangerous_def
        DANGEROUS_ARGS_def dangerous_message_def)
qed

theorem danger_filter_rejects_witness:
  "ensureBrowser plain_env quiet_world sandbox_args init_state =
     (Inl (Error ''Dangerous args detected: --no-sandbox''), init_state)"
proof -
  let ?xs = "[JStr ''--no-sandbox'', JStr ''--window-size=800,600'']"
  let ?m = "JObj [0, 0, 2] [(''args'', JArr [1, 0, 0] ?xs)]"
  have 1: "get_prop sandbox_args ''launchOptions'' = Inr sandbox_options"
    and 2: "get_prop sandbox_args ''allowDangerous'' = Inr JUndefined"
    by (simp_all add: sandbox_args_def)
  have 3: "deepMerge (envConfig plain_env quiet_world)
             (if truthy sandbox_options then sandbox_options
              else JObj (rt_fresh quiet_world @ [1]) []) (rt_fresh quiet_world @ [2]) = Inr ?m"
    using merge_sandbox_options [of quiet_world "[0, 0, 2]"]
    by (simp add: sandbox_options_def quiet_world_def)
  have 4: "get_prop ?m ''args'' = Inr (JArr [1, 0, 0] ?xs)" "list_all is_string ?xs"
    by simp_all
  have 5: "list_ex dangerous (map str_of ?xs) \<and> \<not> truthy JUndefined
             \<and> \<not> allow_override plain_env"
    by (simp add: dangerous_def DANGEROUS_ARGS_def allow_override_def plain_env_def)
  have 6: "filter dangerous (map str_of ?xs) = [''--no-sandbox'']"
    by (simp add: dangerous_def DANGEROUS_ARGS_def)
  from danger_filter_rejects [OF 1 2 3 4, of init_state]
  have "ensureBrowser plain_env quiet_world sandbox_args init_state =
     (Inl (Error (dangerous_message (filter dangerous (map str_of ?xs)))), init_state)"
    using 5 by blast
  then show ?thesis
    unfolding 6 by (simp add: dangerous_message_def)
qed

section \<open>Calls without launch options\<close>

text \<open>Under \<open>plain_env\<close>, a first call launches with the defaults, and a later call
  keeps a connected session.\<close>

lemma check_plain:
  assumes "map_of ps ''launchOptions'' = None" "map_of ps ''allowDangerous'' = None"
  shows "check_options plain_env w (JObj a ps) = Inr (JUndefined, JObj (rt_fresh w @ [2]) [])"
  using assms
  by (simp add: check_options_def destructure_def plain_env_def envConfig_def js_eval
      danger_filter_def)

lemma plain_defaults: "defaults plain_env a = JObj a [(''headless'', JBool False)]"
  by (simp add: defaults_def plain_env_def)

lemma ensure_first:
  assumes "map_of ps ''launchOptions'' = None" "map_of ps ''allowDangerous'' = None"
    and "rt_fresh w = [0, 0]" "lib_launch w plain_config = Inr 1" "lib_pages w 1 = [1]"
  shows "ensureBrowser plain_env w (JObj a ps) init_state = (Inr (Some 1), launched_state)"
  using assms(3-)
  by (simp add: ensureBrowser_def check_plain [OF assms(1,2)] close_stale_def init_state_def
      launch_browser_def plain_defaults js_eval plain_config_def launched_state_def)

lemma ensure_again:
  assumes "map_of ps ''launchOptions'' = None" "map_of ps ''allowDangerous'' = None"
    and "browser st = Some b" "lib_isConnected w b"
  shows "ensureBrowser plain_env w (JObj a ps) st =
           (Inr (page st), st\<lparr>previousLaunchOptions := JUndefined\<rparr>)"
  using assms(3-)
  by (simp add: ensureBrowser_def check_plain [OF assms(1,2)] close_stale_def)

lemma ensure_launched:
  assumes "map_of ps ''launchOptions'' = None" "map_of ps ''allowDangerous'' = None"
    and "lib_isConnected w 1"
  shows "ensureBrowser plain_env w (JObj a ps) launched_state = (Inr (Some 1), launched_state)"
  using ensure_again [OF assms(1,2), of launched_state 1 w] assms(3)
  by (simp add: launched_state_def)

lemma quiet_launch:
  "lib_launch quiet_world cfg = Inr 1" "lib_pages quiet_world b = [b]"
  "lib_isConnected quiet_world b" "rt_fresh quiet_world = [0, 0]"
  "lib_goto quiet_world p u = None"
  by (simp_all add: quiet_world_def)

section \<open>The dispatcher\<close>

lemma launch_browser_keeps:
  "screenshots (snd (launch_browser env w cfg st)) = screenshots st
   \<and> consoleLogs (snd (launch_browser env w cfg st)) = consoleLogs st
   \<and> previousLaunchOptions (snd (launch_browser env w cfg st)) = previousLaunchOptions st"
  by (simp add: launch_browser_def split: sum.splits list.splits)

lemma ensureBrowser_keeps:
  "screenshots (snd (ensureBrowser env w args st)) = screenshots st
   \<and> consoleLogs (snd (ensureBrowser env w args st)) = consoleLogs st"
  by (simp add: ensureBrowser_def Let_def close_stale_def launch_browser_keeps
      split: sum.splits option.splits prod.splits)

text \<open>
  C3, as the code has it. For a name outside the tool set the call is the ensure step
  and nothing more: when \<^verbatim>\<open>ensureBrowser\<close> throws, so does the call; otherwise the
  result is the error result whose one content item is the text
  \<^verbatim>\<open>Unknown tool: <name>\<close>, and the state is the one the ensure step left. The
  screenshots and the console log are unchanged.
\<close>

theorem unknown_tool:
  assumes "name \<notin> set TOOLS"
  shows "handleToolCall env w name args st =
           (case ensureBrowser env w args st of
              (Inl e, st1) \<Rightarrow> (Inl e, st1)
            | (Inr pg, st1) \<Rightarrow>
                (Inr \<lparr>content = [TextContent (''Unknown tool: '' @ name)], isError = True\<rparr>, st1))
         \<and> screenshots (snd (handleToolCall env w name args st)) = screenshots st
         \<and> consoleLogs (snd (handleToolCall env w name args st)) = consoleLogs st"
proof -
  have eq: "handleToolCall env w name args st =
           (case ensureBrowser env w args st of
              (Inl e, st1) \<Rightarrow> (Inl e, st1)
            | (Inr pg, st1) \<Rightarrow>
                (Inr \<lparr>content = [TextContent (''Unknown tool: '' @ name)], isError = True\<rparr>, st1))"
    using assms
    by (auto simp: handleToolCall_def TOOLS_def text_result_def split: prod.splits sum.splits)
  have "snd (handleToolCall env w name args st) = snd (ensureBrowser env w args st)"
    unfolding eq by (simp split: prod.splits sum.splits)
  with eq show ?thesis
    by (simp add: ensureBrowser_keeps)
qed

theorem unknown_tool_witness:
  "handleToolCall plain_env quiet_world ''browser_close'' (JObj [1] []) launched_state =
     (Inr \<lparr>content = [TextContent ''Unknown tool: browser_close''], isError = True\<rparr>,
      launched_state)"
proof -
  have "''browser_close'' \<notin> set TOOLS"
    by (simp add: TOOLS_def)
  from unknown_tool [OF this, of plain_env quiet_world "JObj [1] []" launched_state]
  show ?thesis
    by (simp add: ensure_launched quiet_launch)
qed

text \<open>As the specification states it, C3 fails: the first call of a session with an unknown
  name launches a browser and overwrites \<^verbatim>\<open>previousLaunchOptions\<close>.\<close>

theorem unknown_tool_launches:
  "''puppeteer_scroll'' \<notin> set TOOLS
   \<and> browser init_state = None
   \<and> handleToolCall plain_env quiet_world ''puppeteer_scroll'' (JObj [1] []) init_state =
       (Inr \<lparr>content = [TextContent ''Unknown tool: puppeteer_scroll''], isError = True\<rparr>,
        launched_state)
   \<and> browser launched_state = Some 1
   \<and> effects launched_state = [Launch (JObj [0, 0, 4] [(''headless'', JBool False)]), Listen 1]
   \<and> previousLaunchOptions launched_state \<noteq> previousLaunchOptions init_state"
proof -
  have "handleToolCall plain_env quiet_world ''puppeteer_scroll'' (JObj [1] []) init_state =
       (Inr \<lparr>content = [TextContent ''Unknown tool: puppeteer_scroll''], isError = True\<rparr>,
        launched_state)"
    by (simp add: handleToolCall_def ensure_first quiet_launch text_result_def)
  then show ?thesis
    by (simp add: TOOLS_def launched_state_def init_state_def plain_config_def)
qed

text \<open>
  C2. \<^verbatim>\<open>puppeteer_navigate\<close> has no \<^verbatim>\<open>try\<close> around \<^verbatim>\<open>pg.goto\<close>, and
  \<^verbatim>\<open>puppeteer_screenshot\<close> has none around its capture: with a live session, the
  rejection of \<^verbatim>\<open>goto\<close> for a host that does not resolve, and the rejection of
  \<^verbatim>\<open>pg.screenshot\<close>, leave \<^verbatim>\<open>handleToolCall\<close> as a thrown error, not as an
  error result.
\<close>

theorem navigate_failure_propagates:
  "handleToolCall plain_env offline_world ''puppeteer_navigate''
     (JObj [1] [(''url'', JStr ''http://nonexistent.invalid'')]) launched_state =
   (Inl (Error ''net::ERR_NAME_NOT_RESOLVED at http://nonexistent.invalid''), launched_state)
   \<and> fst (handleToolCall plain_env blind_world ''puppeteer_screenshot''
            (JObj [1] [(''name'', JStr ''home'')]) launched_state) =
       Inl (Error ''Protocol error (Page.captureScreenshot): Unable to capture screenshot'')"
proof -
  have "ensureBrowser plain_env offline_world
          (JObj [1] [(''url'', JStr ''http://nonexistent.invalid'')]) launched_state =
        (Inr (Some 1), launched_state)"
    by (simp add: ensure_launched offline_world_def quiet_world_def)
  then have 1: "handleToolCall plain_env offline_world ''puppeteer_navigate''
     (JObj [1] [(''url'', JStr ''http://nonexistent.invalid'')]) launched_state =
   (Inl (Error ''net::ERR_NAME_NOT_RESOLVED at http://nonexistent.invalid''), launched_state)"
    by (simp add: handleToolCall_def navigate_def on_page_def arg_def offline_world_def)
  have "ensureBrowser plain_env blind_world (JObj [1] [(''name'', JStr ''home'')]) launched_state =
        (Inr (Some 1), launched_state)"
    by (simp add: ensure_launched blind_world_def quiet_world_def)
  then have 2: "fst (handleToolCall plain_env blind_world ''puppeteer_screenshot''
            (JObj [1] [(''name'', JStr ''home'')]) launched_state) =
       Inl (Error ''Protocol error (Page.captureScreenshot): Unable to capture screenshot'')"
    by (simp add: handleToolCall_def screenshot_def capture_def arg_def nullish_or_def
        blind_world_def quiet_world_def)
  from 1 2 show ?thesis by (rule conjI)
qed

text \<open>In general: whatever \<^verbatim>\<open>pg.goto\<close> throws, the call throws.\<close>

lemma navigate_throws:
  assumes "ensureBrowser env w args st = (Inr (Some p), st1)"
    and "lib_goto w p (arg args ''url'') = Some e"
  shows "handleToolCall env w ''puppeteer_navigate'' args st = (Inl e, st1)"
  using assms by (simp add: handleToolCall_def navigate_def on_page_def)

text \<open>The five tools that do catch: once the session is ensured they answer with a
  result, whatever the library does.\<close>

lemma caught_tools_return:
  assumes "name \<in> {''puppeteer_click'', ''puppeteer_fill'', ''puppeteer_select'',
                    ''puppeteer_hover'', ''puppeteer_evaluate''}"
    and "ensureBrowser env w args st = (Inr pg, st1)"
  shows "\<exists>r. handleToolCall env w name args st = (Inr r, st1)"
  using assms by (auto simp: handleToolCall_def)

subsection \<open>The map of screenshots\<close>

lemma same_value_zero_refl: "same_value_zero x x"
  by (simp add: same_value_zero_def split: option.splits)

lemma same_value_zero_sym: "same_value_zero x y \<Longrightarrow> same_value_zero y x"
  by (cases x; cases y) (auto simp: same_value_zero_def)

lemma same_value_zero_trans:
  "same_value_zero x y \<Longrightarrow> same_value_zero y z \<Longrightarrow> same_value_zero x z"
  by (cases x; cases y) (auto simp: same_value_zero_def)




subsection \<open>Screenshots\<close>



lemma show_sizes:
  "show_number 800 = ''800''" "show_number 600 = ''600''" "show_number 1024 = ''1024''"
  by (simp_all add: show_number_def show_nat.simps digit_char_def)


section \<open>Reading a screenshot back\<close>

lemma split_from_none:
  "sep \<noteq> [] \<Longrightarrow> \<not> sublist sep s \<Longrightarrow> split_from sep cur s = [cur @ s]"
proof (induction s arbitrary: cur)
  case Nil
  then show ?case by simp
next
  case (Cons c cs)
  from Cons.prems have "\<not> prefix sep (c # cs)" "\<not> sublist sep cs"
    by (auto simp: sublist_Cons_right)
  with Cons show ?case by simp
qed

lemma split_from_first:
  "sep \<noteq> [] \<Longrightarrow> sublist sep s \<Longrightarrow>
     \<exists>pre rest. s = pre @ sep @ rest \<and> (\<forall>i<length pre. \<not> prefix sep (drop i s))
       \<and> split_from sep cur s = (cur @ pre) # split_from sep [] rest"
proof (induction s arbitrary: cur)
  case Nil
  then show ?case by simp
next
  case (Cons c cs)
  show ?case
  proof (cases "prefix sep (c # cs)")
    case True
    then obtain rest where rest: "c # cs = sep @ rest"
      by (auto simp: prefix_def)
    then have "drop (length sep) (c # cs) = rest" by simp
    with True Cons.prems(1)
    have "split_from sep cur (c # cs) = (cur @ []) # split_from sep [] rest"
      by simp
    with rest have "c # cs = [] @ sep @ rest \<and> (\<forall>i<length ([]::string). \<not> prefix sep (drop i (c # cs)))
        \<and> split_from sep cur (c # cs) = (cur @ []) # split_from sep [] rest"
      by simp
    then show ?thesis by blast
  next
    case False
    with Cons.prems have "sublist sep cs"
      by (simp add: sublist_Cons_right)
    from Cons.IH [OF Cons.prems(1) this, of "cur @ [c]"]
    obtain pre rest where pre: "cs = pre @ sep @ rest"
      "\<forall>i<length pre. \<not> prefix sep (drop i cs)"
      "split_from sep (cur @ [c]) cs = ((cur @ [c]) @ pre) # split_from sep [] rest"
      by blast
    have "\<not> prefix sep (drop i (c # cs))" if "i < length (c # pre)" for i
      using that False pre(2) by (cases i) simp_all
    with False pre(1,3) have "c # cs = (c # pre) @ sep @ rest
        \<and> (\<forall>i<length (c # pre). \<not> prefix sep (drop i (c # cs)))
        \<and> split_from sep cur (c # cs) = (cur @ (c # pre)) # split_from sep [] rest"
      by simp
    then show ?thesis by blast
  qed
qed

lemma split_screenshot_uri:
  "split (''screenshot://'' @ n) ''://'' = ''screenshot'' # split n ''://''"
  by (simp add: split_def)

lemma split_from_nonempty: "split_from sep cur s \<noteq> []"
  by (induction sep cur s rule: split_from.induct) auto

lemma split_nonempty: "sep \<noteq> [] \<Longrightarrow> split s sep \<noteq> []"
  by (simp add: split_def split_from_nonempty)

text \<open>Reading \<^verbatim>\<open>screenshot://<name>\<close> looks up the text of the name before its
  first \<^verbatim>\<open>://\<close>, which is the whole name when it holds none.\<close>

lemma read_key:
  fixes n :: string
  defines "uri \<equiv> ''screenshot://'' @ n"
    and "key \<equiv> hd (split n ''://'')"
  shows "read_resource st uri =
           (case map_get (screenshots st) (JStr key) of
              Some b \<Rightarrow>
                if b \<noteq> [] then Inr (BlobResource uri ''image/png'' b)
                else Inl (Error (''Resource not found: '' @ uri))
            | None \<Rightarrow> Inl (Error (''Resource not found: '' @ uri)))
         \<and> (\<not> sublist ''://'' n \<longrightarrow> key = n)
         \<and> (sublist ''://'' n \<longrightarrow>
              (\<exists>rest. n = key @ ''://'' @ rest) \<and> (\<forall>i<length key. \<not> prefix ''://'' (drop i n)))"
proof (intro conjI impI)
  have ne: "split n ''://'' \<noteq> []" by (rule split_nonempty) simp
  then have "1 < length (split uri ''://'')" "split uri ''://'' ! 1 = key"
    unfolding uri_def key_def split_screenshot_uri by (simp_all add: hd_conv_nth)
  moreover have "uri \<noteq> ''console://logs''" "prefix ''screenshot://'' uri"
    by (simp_all add: uri_def)
  ultimately show "read_resource st uri =
           (case map_get (screenshots st) (JStr key) of
              Some b \<Rightarrow>
                if b \<noteq> [] then Inr (BlobResource uri ''image/png'' b)
                else Inl (Error (''Resource not found: '' @ uri))
            | None \<Rightarrow> Inl (Error (''Resource not found: '' @ uri)))"
    by (simp add: read_resource_def Let_def split: option.splits)
next
  assume "\<not> sublist ''://'' n"
  then show "key = n"
    by (simp add: key_def split_def split_from_none)
next
  assume "sublist ''://'' n"
  with split_from_first [of "''://''" n "[]"]
  show "\<exists>rest. n = key @ ''://'' @ rest" "\<forall>i<length key. \<not> prefix ''://'' (drop i n)"
    by (auto simp: key_def split_def)
qed

text \<open>So a screenshot whose name holds no \<^verbatim>\<open>://\<close> is read back from its
  listed URI.\<close>

lemma read_round_trip:
  assumes "\<not> sublist ''://'' n" "map_get (screenshots st) (JStr n) = Some b" "b \<noteq> []"
  shows "read_resource st (''screenshot://'' @ n) =
           Inr (BlobResource (''screenshot://'' @ n) ''image/png'' b)"
  using read_key [of st n] assms by simp

lemma shots_taken:
  "screenshots two_shots = [(JStr ''a'', ''QUFB''), (JStr ''a://b'', ''QkJC'')]"
proof -
  let ?s1 = "launched_state\<lparr>screenshots := [(JStr ''a'', ''QUFB'')],
        effects := effects launched_state @ [SetViewport 1 (JNum 800) (JNum 600),
           Notification ''notifications/resources/updated'' (Some ''screenshot://a''),
           Notification ''notifications/resources/list_changed'' None]\<rparr>"
  have 1: "handleToolCall plain_env (shot_world ''QUFB'') ''puppeteer_screenshot''
             (JObj [1] [(''name'', JStr ''a'')]) init_state =
           (Inr \<lparr>content = [TextContent (''Screenshot '' @ sq @ ''a'' @ sq @ '' at 800x600''),
                       ImageContent ''QUFB'' ''image/png''], isError = False\<rparr>, ?s1)"
    by (simp add: handleToolCall_def ensure_first shot_world_def quiet_world_def screenshot_def
        arg_def nullish_or_def capture_def store_shot_def launched_state_def show_sizes
        plain_config_def)
  have 2: "ensureBrowser plain_env (shot_world ''QkJC'') (JObj [2] [(''name'', JStr ''a://b'')]) ?s1
            = (Inr (Some 1), ?s1)"
    by (simp add: ensure_again shot_world_def quiet_world_def launched_state_def)
  have 3: "screenshots (snd (handleToolCall plain_env (shot_world ''QkJC'') ''puppeteer_screenshot''
             (JObj [2] [(''name'', JStr ''a://b'')]) ?s1)) = [(JStr ''a'', ''QUFB''), (JStr ''a://b'', ''QkJC'')]"
    using 2
    by (simp add: handleToolCall_def shot_world_def quiet_world_def screenshot_def
        arg_def nullish_or_def capture_def store_shot_def launched_state_def
        same_value_zero_def show_sizes)
  show ?thesis
    unfolding two_shots_def run_def foldl.simps prod.case 1 snd_conv by (rule 3)
qed

text \<open>
  C10. After the two screenshots \<^verbatim>\<open>a\<close> and \<^verbatim>\<open>a://b\<close>, the list handler
  advertises \<^verbatim>\<open>screenshot://a://b\<close> for the second. The read handler cuts that
  URI at every \<^verbatim>\<open>://\<close> and looks up the second piece, \<^verbatim>\<open>a\<close>: the read of the
  listed URI answers with the image of the first screenshot. It is neither the image
  stored under the name nor the not-found error.
\<close>

theorem read_back_truncates:
  "map_get (screenshots two_shots) (JStr ''a://b'') = Some ''QkJC''
   \<and> list_resources two_shots =
       Inr [\<lparr>res_uri = ''console://logs'', res_mimeType = ''text/plain'',
             res_name = ''Browser console logs''\<rparr>,
            \<lparr>res_uri = ''screenshot://a'', res_mimeType = ''image/png'',
             res_name = ''Screenshot: a''\<rparr>,
            \<lparr>res_uri = ''screenshot://a://b'', res_mimeType = ''image/png'',
             res_name = ''Screenshot: a://b''\<rparr>]
   \<and> read_resource two_shots ''screenshot://a://b'' =
       Inr (BlobResource ''screenshot://a://b'' ''image/png'' ''QUFB'')"
  by (simp add: shots_taken same_value_zero_def list_resources_def read_resource_def split_def)

section \<open>Reuse and relaunch\<close>

subsection \<open>What a sequence of calls remembers\<close>

lemma rejected_call:
  assumes "check_options env w args = Inl e"
  shows "ensureBrowser env w args st = (Inl e, st)"
    and "handleToolCall env w name args st = (Inl e, st)"
  using assms by (simp_all add: ensureBrowser_def handleToolCall_def)

lemma ensure_previous:
  "previousLaunchOptions (snd (ensureBrowser env w args st)) =
     (case check_options env w args of
        Inl e \<Rightarrow> previousLaunchOptions st
      | Inr (lo, merged) \<Rightarrow> lo)"
  by (simp add: ensureBrowser_def Let_def launch_browser_keeps split: sum.splits prod.splits)

lemma store_shot_session:
  "browser (snd (store_shot name wd ht encoded shot st)) = browser st
   \<and> page (snd (store_shot name wd ht encoded shot st)) = page st
   \<and> previousLaunchOptions (snd (store_shot name wd ht encoded shot st)) =
       previousLaunchOptions st"
  by (simp add: store_shot_def Let_def split: option.splits sum.splits)

lemma screenshot_session:
  "browser (snd (screenshot w pg args st)) = browser st
   \<and> page (snd (screenshot w pg args st)) = page st
   \<and> previousLaunchOptions (snd (screenshot w pg args st)) = previousLaunchOptions st"
  by (simp add: screenshot_def Let_def store_shot_session split: option.splits sum.splits)

lemma navigate_session: "snd (navigate w pg args st) = st"
  by (simp add: navigate_def split: option.splits sum.splits)

text \<open>After the ensure step no tool touches the session.\<close>

lemma tool_session:
  "browser (snd (handleToolCall env w name args st)) = browser (snd (ensureBrowser env w args st))
   \<and> page (snd (handleToolCall env w name args st)) = page (snd (ensureBrowser env w args st))
   \<and> previousLaunchOptions (snd (handleToolCall env w name args st)) =
       previousLaunchOptions (snd (ensureBrowser env w args st))"
  by (cases "ensureBrowser env w args st")
    (simp add: handleToolCall_def navigate_session screenshot_session split: sum.splits)

lemma run_snoc:
  "run env (calls @ [(w, name, args)]) st =
     snd (handleToolCall env w name args (run env calls st))"
  by (simp add: run_def)

lemma latest_snoc:
  "latest_options env (calls @ [(w, name, args)]) =
     (case check_options env w args of
        Inl e \<Rightarrow> latest_options env calls
      | Inr (lo, merged) \<Rightarrow> lo)"
  unfolding latest_options_def by simp

text \<open>\<^verbatim>\<open>previousLaunchOptions\<close> holds the launch options of the latest call that
  was not rejected; a rejected call leaves it, as it leaves all of the state.\<close>

lemma run_previous:
  "previousLaunchOptions (run env calls init_state) = latest_options env calls"
proof (induction calls rule: rev_induct)
  case Nil
  show ?case by (simp add: run_def latest_options_def init_state_def)
next
  case (snoc c calls)
  obtain w name args where c: "c = (w, name, args)" by (cases c)
  show ?case
    unfolding c run_snoc latest_snoc using snoc
    by (simp add: tool_session ensure_previous split: sum.splits prod.splits)
qed

subsection \<open>The two sessions of the examples\<close>

lemma merge_headless:
  "deepMerge (envConfig plain_env w) (JObj r [(''headless'', JBool True)]) a =
     Inr (headless_config a)"
  "deepMerge (defaults plain_env b) (headless_config c) a = Inr (headless_config a)"
  by (simp_all add: envConfig_def plain_env_def defaults_def headless_config_def js_eval)

lemma check_headless:
  "check_options plain_env w headless_args =
     Inr (headless_options, headless_config (rt_fresh w @ [2]))"
  "check_options plain_env w headless_args_again =
     Inr (headless_options_again, headless_config (rt_fresh w @ [2]))"
  by (simp_all add: check_options_def destructure_def headless_args_def headless_options_def
      headless_args_again_def headless_options_again_def merge_headless danger_filter_def
      headless_config_def)

lemma headless_url:
  "arg headless_args ''url'' = JStr ''https://example.com''"
  "arg headless_args_again ''url'' = JStr ''https://example.com''"
  by (simp_all add: arg_def headless_args_def headless_args_again_def)

lemma created:
  "handleToolCall plain_env quiet_world ''puppeteer_navigate'' headless_args init_state =
     (Inr (text_result ''Navigated to https://example.com'' False), created_state)"
  by (simp add: handleToolCall_def ensureBrowser_def check_headless close_stale_def
      init_state_def launch_browser_def merge_headless quiet_launch navigate_def on_page_def
      headless_url created_state_def)

lemma run_created:
  "run plain_env [(quiet_world, ''puppeteer_navigate'', headless_args)] init_state = created_state"
  by (simp add: run_def created)

lemma different_options:
  "json_differs headless_options JUndefined" "json_differs headless_options_again JUndefined"
  "\<not> json_differs headless_options_again headless_options"
  "json_differs sandbox_options headless_options"
  "json_differs headless_options_again sandbox_options"
  "json_differs headless_options (JObj [1, 0] [])"
  by (simp_all add: json_differs_def headless_options_def headless_options_again_def
      sandbox_options_def)

subsection \<open>Reuse\<close>

text \<open>
  C7, as the code has it. A connected session exists after a sequence of calls. The
  next call passes the parameter, the merge and the danger filter, and its launch
  options are absent (not truthy) or are written by \<^verbatim>\<open>JSON.stringify\<close> as the
  launch options of the latest call of the sequence that passed them. Then nothing is
  closed or launched: the page of the session is returned, and the state changes in
  \<^verbatim>\<open>previousLaunchOptions\<close> only, which takes the call's launch options.
\<close>

theorem same_options_reuse:
  fixes env :: env and calls :: "call list"
  defines "st \<equiv> run env calls init_state"
  assumes live: "browser st = Some b" "lib_isConnected w b"
    and ok: "check_options env w args = Inr (lo, merged)"
    and same: "\<not> truthy lo \<or> \<not> json_differs lo (latest_options env calls)"
  shows "ensureBrowser env w args st = (Inr (page st), st\<lparr>previousLaunchOptions := lo\<rparr>)"
proof -
  have "previousLaunchOptions st = latest_options env calls"
    unfolding st_def by (rule run_previous)
  with live same have "close_stale w lo st = st"
    by (auto simp: close_stale_def)
  with live(1) show ?thesis
    by (simp add: ensureBrowser_def ok)
qed

theorem same_options_reuse_witness:
  "ensureBrowser plain_env quiet_world headless_args_again created_state =
     (Inr (Some 1), created_state\<lparr>previousLaunchOptions := headless_options_again\<rparr>)"
proof -
  let ?calls = "[(quiet_world, ''puppeteer_navigate'', headless_args)]"
  have run: "run plain_env ?calls init_state = created_state"
    by (rule run_created)
  have "latest_options plain_env ?calls = previousLaunchOptions created_state"
    using run_previous [of plain_env ?calls] by (simp only: run)
  then have latest: "latest_options plain_env ?calls = headless_options"
    by (simp add: created_state_def)
  have 1: "browser (run plain_env ?calls init_state) = Some 1" "lib_isConnected quiet_world 1"
    and 2: "\<not> truthy headless_options_again
              \<or> \<not> json_differs headless_options_again (latest_options plain_env ?calls)"
    unfolding run latest by (simp_all add: created_state_def quiet_launch different_options)
  from same_options_reuse [OF 1 check_headless(2) 2] show ?thesis
    unfolding run by (simp add: created_state_def)
qed

text \<open>As the specification states it, C7 fails: the options of the call that created the
  session are not kept. After a call without launch options, launch options equal to
  those of the creating call come again and the connected browser is closed and
  launched anew.\<close>

theorem creating_options_relaunch:
  "run plain_env [(quiet_world, ''puppeteer_navigate'', headless_args)] init_state = created_state
   \<and> run plain_env [(quiet_world, ''puppeteer_navigate'', headless_args),
                     (quiet_world, ''puppeteer_click'', click_args)] init_state =
       created_state\<lparr>previousLaunchOptions := JUndefined\<rparr>
   \<and> browser created_state = Some 1 \<and> page created_state = Some 1
   \<and> lib_isConnected second_world 1
   \<and> forget headless_options_again = forget headless_options
   \<and> ensureBrowser plain_env second_world headless_args_again
        (created_state\<lparr>previousLaunchOptions := JUndefined\<rparr>) =
       (Inr (Some 2),
        created_state\<lparr>browser := Some 2, page := Some 2,
          previousLaunchOptions := headless_options_again,
          effects := effects created_state @
            [Close 1, Launch (headless_config [0, 1, 4]), Listen 2]\<rparr>)"
proof -
  have a: "run plain_env [(quiet_world, ''puppeteer_navigate'', headless_args)] init_state
        = created_state"
    by (rule run_created)
  have "ensureBrowser plain_env quiet_world click_args created_state =
          (Inr (page created_state), created_state\<lparr>previousLaunchOptions := JUndefined\<rparr>)"
    unfolding click_args_def
    by (rule ensure_again) (simp_all add: created_state_def quiet_launch)
  then have "snd (handleToolCall plain_env quiet_world ''puppeteer_click'' click_args created_state)
        = created_state\<lparr>previousLaunchOptions := JUndefined\<rparr>"
    by (simp add: handleToolCall_def)
  with run_snoc [of plain_env "[(quiet_world, ''puppeteer_navigate'', headless_args)]"
      quiet_world "''puppeteer_click''" click_args init_state]
  have b: "run plain_env [(quiet_world, ''puppeteer_navigate'', headless_args),
                     (quiet_world, ''puppeteer_click'', click_args)] init_state =
       created_state\<lparr>previousLaunchOptions := JUndefined\<rparr>"
    by (simp add: a)
  have c: "browser created_state = Some 1" "page created_state = Some 1"
    "lib_isConnected second_world 1"
    "forget headless_options_again = forget headless_options"
    by (simp_all add: created_state_def second_world_def quiet_world_def
        headless_options_def headless_options_again_def)
  have truthy: "truthy headless_options_again"
    by (simp add: headless_options_again_def)
  have fresh: "rt_fresh second_world = [0, 1]" "lib_launch second_world cfg = Inr 2"
    "lib_pages second_world 2 = [2]" for cfg
    by (simp_all add: second_world_def quiet_world_def)
  have d: "ensureBrowser plain_env second_world headless_args_again
        (created_state\<lparr>previousLaunchOptions := JUndefined\<rparr>) =
       (Inr (Some 2),
        created_state\<lparr>browser := Some 2, page := Some 2,
          previousLaunchOptions := headless_options_again,
          effects := effects created_state @
            [Close 1, Launch (headless_config [0, 1, 4]), Listen 2]\<rparr>)"
    using c(3) truthy
    by (simp add: ensureBrowser_def check_headless close_stale_def created_state_def
        different_options launch_browser_def merge_headless fresh)
  show ?thesis
    by (intro conjI a b c d)
qed

subsection \<open>Relaunch\<close>

text \<open>
  C8, as the code has it. A session exists after a sequence of calls, connected or
  not. The next call passes the parameter, the merge and the danger filter, its launch
  options are given (truthy) and \<^verbatim>\<open>JSON.stringify\<close> writes them otherwise than the
  launch options of the latest call of the sequence that passed them, and the merge with
  the defaults returns. Then the browser is closed once and \<^verbatim>\<open>puppeteer.launch\<close>
  is called once, whatever the merged configuration is, also when it equals the one the
  session runs with; the raw launch options become \<^verbatim>\<open>previousLaunchOptions\<close>. The
  three outcomes are those of the launch: it throws, it has no page, or it answers with
  its first page.
\<close>

theorem changed_options_relaunch:
  fixes env :: env and calls :: "call list"
  defines "st \<equiv> run env calls init_state"
  assumes live: "browser st = Some b"
    and ok: "check_options env w args = Inr (lo, merged)"
    and differ: "truthy lo" "json_differs lo (latest_options env calls)"
    and cfg: "deepMerge (defaults env (rt_fresh w @ [3])) merged (rt_fresh w @ [4]) = Inr cfg"
  shows "ensureBrowser env w args st =
           (case lib_launch w cfg of
              Inl e \<Rightarrow>
                (Inl e, st\<lparr>browser := None, previousLaunchOptions := lo,
                          effects := effects st @ [Close b, Launch cfg]\<rparr>)
            | Inr b' \<Rightarrow>
                (case lib_pages w b' of
                   [] \<Rightarrow>
                     (Inl (cannot_read ''undefined'' ''on''),
                      st\<lparr>browser := Some b', page := None, previousLaunchOptions := lo,
                         effects := effects st @ [Close b, Launch cfg]\<rparr>)
                 | p # ps \<Rightarrow>
                     (Inr (Some p),
                      st\<lparr>browser := Some b', page := Some p, previousLaunchOptions := lo,
                         effects := effects st @ [Close b, Launch cfg, Listen p]\<rparr>)))"
proof -
  have "previousLaunchOptions st = latest_options env calls"
    unfolding st_def by (rule run_previous)
  with live differ have "close_stale w lo st = st\<lparr>browser := None, effects := effects st @ [Close b]\<rparr>"
    by (simp add: close_stale_def)
  then show ?thesis
    using cfg
    by (simp add: ensureBrowser_def ok launch_browser_def split: sum.splits list.splits)
qed

lemma merge_headless_env:
  "deepMerge (envConfig headless_env w) (JObj r []) a = Inr (headless_config a)"
  "deepMerge (envConfig headless_env w) (JObj r [(''headless'', JBool True)]) a =
     Inr (headless_config a)"
  "deepMerge (defaults headless_env b) (headless_config c) a = Inr (headless_config a)"
  by (simp_all add: envConfig_def headless_env_def plain_env_def defaults_def
      headless_config_def js_eval)

lemma check_headless_env:
  "check_options headless_env w empty_options_args =
     Inr (JObj [1, 0] [], headless_config (rt_fresh w @ [2]))"
  "check_options headless_env w headless_args =
     Inr (headless_options, headless_config (rt_fresh w @ [2]))"
  by (simp_all add: check_options_def destructure_def empty_options_args_def headless_args_def
      headless_options_def merge_headless_env danger_filter_def headless_config_def)

lemma reused:
  "run headless_env [(quiet_world, ''puppeteer_navigate'', empty_options_args)] init_state =
     reused_state"
proof -
  have "arg empty_options_args ''url'' = JStr ''https://example.com''"
    by (simp add: arg_def empty_options_args_def)
  then show ?thesis
    by (simp add: run_def handleToolCall_def ensureBrowser_def check_headless_env
        close_stale_def init_state_def launch_browser_def merge_headless_env quiet_launch
        navigate_def on_page_def reused_state_def)
qed

theorem changed_options_relaunch_witness:
  "run headless_env [(quiet_world, ''puppeteer_navigate'', empty_options_args)] init_state =
     reused_state
   \<and> effects reused_state = [Launch (headless_config [0, 0, 4]), Listen 1]
   \<and> ensureBrowser headless_env second_world headless_args reused_state =
       (Inr (Some 2),
        reused_state\<lparr>browser := Some 2, page := Some 2, previousLaunchOptions := headless_options,
          effects := effects reused_state @ [Close 1, Launch (headless_config [0, 1, 4]), Listen 2]\<rparr>)
   \<and> forget (headless_config [0, 1, 4]) = forget (headless_config [0, 0, 4])"
proof -
  let ?calls = "[(quiet_world, ''puppeteer_navigate'', empty_options_args)]"
  have "latest_options headless_env ?calls = previousLaunchOptions reused_state"
    using run_previous [of headless_env ?calls] by (simp only: reused)
  then have latest: "latest_options headless_env ?calls = JObj [1, 0] []"
    by (simp add: reused_state_def)
  have fresh: "rt_fresh second_world = [0, 1]" "lib_launch second_world cfg = Inr 2"
    "lib_pages second_world 2 = [2]" for cfg
    by (simp_all add: second_world_def quiet_world_def)
  have 1: "browser (run headless_env ?calls init_state) = Some 1"
    and 2: "truthy headless_options"
      "json_differs headless_options (latest_options headless_env ?calls)"
    and 3: "deepMerge (defaults headless_env (rt_fresh second_world @ [3]))
              (headless_config (rt_fresh second_world @ [2])) (rt_fresh second_world @ [4]) =
            Inr (headless_config [0, 1, 4])"
    unfolding reused latest
    by (simp_all add: reused_state_def headless_options_def json_differs_def
        merge_headless_env fresh)
  from changed_options_relaunch [OF 1 check_headless_env(2) 2 3]
  have "ensureBrowser headless_env second_world headless_args reused_state =
       (Inr (Some 2),
        reused_state\<lparr>browser := Some 2, page := Some 2, previousLaunchOptions := headless_options,
          effects := effects reused_state @ [Close 1, Launch (headless_config [0, 1, 4]), Listen 2]\<rparr>)"
    unfolding reused by (simp add: fresh)
  then show ?thesis
    by (simp add: reused reused_state_def headless_config_def)
qed

text \<open>As the specification states it, C8 fails. On a live session, launch options that
  differ from those of the previous call and that the danger filter rejects close and
  launch nothing: the call throws and the state stays. And the call after a rejected
  call is compared with the call before it: launch options equal to those, which
  differ from the rejected ones, close and launch nothing either.\<close>

theorem changed_options_rejected:
  "run plain_env [(quiet_world, ''puppeteer_navigate'', headless_args)] init_state = created_state
   \<and> browser created_state = Some 1
   \<and> truthy sandbox_options \<and> json_differs sandbox_options headless_options
   \<and> ensureBrowser plain_env second_world sandbox_args created_state =
       (Inl (Error ''Dangerous args detected: --no-sandbox''), created_state)
   \<and> run plain_env [(quiet_world, ''puppeteer_navigate'', headless_args),
                     (second_world, ''puppeteer_navigate'', sandbox_args)] init_state =
       created_state
   \<and> truthy headless_options_again \<and> json_differs headless_options_again sandbox_options
   \<and> ensureBrowser plain_env quiet_world headless_args_again created_state =
       (Inr (Some 1), created_state\<lparr>previousLaunchOptions := headless_options_again\<rparr>)"
proof -
  have a: "run plain_env [(quiet_world, ''puppeteer_navigate'', headless_args)] init_state
        = created_state"
    by (rule run_created)
  have b: "browser created_state = Some 1" "truthy sandbox_options"
    "truthy headless_options_again"
    by (simp_all add: created_state_def sandbox_options_def headless_options_again_def)
  have c: "ensureBrowser plain_env second_world sandbox_args created_state =
       (Inl (Error ''Dangerous args detected: --no-sandbox''), created_state)"
    by (rule rejected_call) (rule rejects_sandbox)
  have "snd (handleToolCall plain_env second_world ''puppeteer_navigate'' sandbox_args created_state)
        = created_state"
    by (simp add: rejected_call(2) [OF rejects_sandbox])
  with run_snoc [of plain_env "[(quiet_world, ''puppeteer_navigate'', headless_args)]"
      second_world "''puppeteer_navigate''" sandbox_args init_state]
  have d: "run plain_env [(quiet_world, ''puppeteer_navigate'', headless_args),
                     (second_world, ''puppeteer_navigate'', sandbox_args)] init_state =
       created_state"
    by (simp add: a)
  have e: "ensureBrowser plain_env quiet_world headless_args_again created_state =
       (Inr (Some 1), created_state\<lparr>previousLaunchOptions := headless_options_again\<rparr>)"
    by (simp add: ensureBrowser_def check_headless close_stale_def created_state_def
        different_options quiet_launch)
  show ?thesis
    by (intro conjI a b c d e different_options(4,5))
qed

section \<open>Properties of the merger\<close>

subsection \<open>Writing a property\<close>

lemma map_of_insert_index:
  "k \<notin> fst ` set ps \<Longrightarrow> map_of (insert_index i k v ps) = (map_of ps)(k \<mapsto> v)"
proof (induction ps)
  case Nil
  then show ?case by simp
next
  case (Cons p ps)
  then have "k \<noteq> fst p" "k \<notin> fst ` set ps" by auto
  with Cons.IH show ?case
    by (cases p) (auto simp: fun_upd_twist split: option.splits)
qed

lemma map_of_set_prop: "map_of (set_prop out k v) = (map_of out)(k \<mapsto> v)"
proof (cases "k \<in> fst ` set out")
  case True
  then show ?thesis by (simp add: set_prop_def update_conv')
next
  case False
  then have "map_of out k = None"
    by (simp add: map_of_eq_None_iff)
  with False show ?thesis
    by (auto simp: set_prop_def map_of_insert_index map_add_def fun_eq_iff split: option.splits)
qed

lemma set_prop_there:
  "k \<in> fst ` set out \<Longrightarrow> set_prop out k v = AList.update k v out"
  by (simp add: set_prop_def)

lemma map_of_forget_props: "map_of (forget_props ps) k = map_option forget (map_of ps k)"
  by (induction ps) auto

lemma keys_forget_props: "map fst (forget_props ps) = map fst ps"
  by (induction ps) auto

lemma forget_update:
  "map_of out k = Some u \<Longrightarrow> forget u = forget v \<Longrightarrow>
     forget_props (AList.update k v out) = forget_props out"
  by (induction out) (auto split: if_splits)

subsection \<open>The loop over the keys\<close>

lemma merge_props_Cons:
  "merge_props target out ((k, s) # rest) a i =
     (case get_prop target k of
        Inl e \<Rightarrow> Inl e
      | Inr t \<Rightarrow>
          (case merge_value t s (a @ [i]) of
             Inl e \<Rightarrow> Inl e
           | Inr v \<Rightarrow> merge_props target (set_prop out k v) rest a (Suc i)))"
  by (simp add: merge_value_def split: sum.splits)

lemma merge_props_other:
  "merge_props target out ps a i = Inr out' \<Longrightarrow> k \<notin> fst ` set ps \<Longrightarrow>
     map_of out' k = map_of out k"
proof (induction ps arbitrary: out i)
  case Nil
  then show ?case by simp
next
  case (Cons p ps)
  obtain k' s where p: "p = (k', s)" by (cases p)
  from Cons.prems(1) obtain t v where
    "get_prop target k' = Inr t" "merge_value t s (a @ [i]) = Inr v"
    "merge_props target (set_prop out k' v) ps a (Suc i) = Inr out'"
    unfolding p merge_props_Cons by (auto split: sum.splits)
  with Cons.IH [of "set_prop out k' v" "Suc i"] Cons.prems(2) show ?case
    by (simp add: p map_of_set_prop)
qed

lemma merge_props_entry:
  "merge_props target out ps a i = Inr out' \<Longrightarrow> distinct (map fst ps) \<Longrightarrow> (k, s) \<in> set ps \<Longrightarrow>
     \<exists>t v j. get_prop target k = Inr t \<and> merge_value t s (a @ [j]) = Inr v
       \<and> map_of out' k = Some v"
proof (induction ps arbitrary: out i)
  case Nil
  then show ?case by simp
next
  case (Cons p ps)
  obtain k' s' where p: "p = (k', s')" by (cases p)
  from Cons.prems(1) obtain t v where step:
    "get_prop target k' = Inr t" "merge_value t s' (a @ [i]) = Inr v"
    "merge_props target (set_prop out k' v) ps a (Suc i) = Inr out'"
    unfolding p merge_props_Cons by (auto split: sum.splits)
  show ?case
  proof (cases "(k, s) = p")
    case True
    with Cons.prems(2) p have "k \<notin> fst ` set ps" "k' = k" "s' = s" by auto
    with merge_props_other [OF step(3), of k] step show ?thesis
      by (auto simp: map_of_set_prop)
  next
    case False
    with Cons.prems have "(k, s) \<in> set ps" "distinct (map fst ps)" by auto
    with Cons.IH [OF step(3)] show ?thesis by blast
  qed
qed

text \<open>Merging into an object a source whose every value, merged into what the object
  holds under its key, gives that again in structure: the object stays, in
  structure.\<close>

lemma merge_props_fixed:
  assumes "\<And>k s i. (k, s) \<in> set rest \<Longrightarrow>
             \<exists>v v'. map_of out0 k = Some v \<and> merge_value v s (y @ [i]) = Inr v'
               \<and> forget v' = forget v"
    and "map fst out = map fst out0" "forget_props out = forget_props out0"
  shows "\<exists>out'. merge_props (JObj a out0) out rest y i = Inr out'
           \<and> forget_props out' = forget_props out0"
  using assms
proof (induction rest arbitrary: out i)
  case Nil
  then show ?case by simp
next
  case (Cons p rest)
  obtain k s where p: "p = (k, s)" by (cases p)
  from Cons.prems(1) [of k s i] p obtain v v' where
    v: "map_of out0 k = Some v" "merge_value v s (y @ [i]) = Inr v'" "forget v' = forget v"
    by auto
  from v(1) have there0: "k \<in> fst ` set out0"
    by (metis map_of_eq_None_iff option.distinct(1))
  with Cons.prems(2) have there: "k \<in> fst ` set out"
    by (metis list.set_map)
  from Cons.prems(3) have "map_of (forget_props out) k = map_of (forget_props out0) k"
    by simp
  with v(1) obtain u where u: "map_of out k = Some u" "forget u = forget v"
    by (auto simp: map_of_forget_props)
  let ?out = "AList.update k v' out"
  have "\<exists>out'. merge_props (JObj a out0) ?out rest y (Suc i) = Inr out'
           \<and> forget_props out' = forget_props out0"
  proof (rule Cons.IH)
    show "\<exists>v v'. map_of out0 k' = Some v \<and> merge_value v s' (y @ [j]) = Inr v'
               \<and> forget v' = forget v" if "(k', s') \<in> set rest" for k' s' j
      using Cons.prems(1) [of k' s' j] that by simp
    show "map fst ?out = map fst out0"
      using there there0 Cons.prems(2) by (simp add: update_keys)
    show "forget_props ?out = forget_props out0"
      using forget_update [OF u(1), of v'] u(2) v(3) Cons.prems(3) by simp
  qed
  with v show ?case
    unfolding p merge_props_Cons by (simp add: set_prop_there [OF there])
qed

subsection \<open>Merging the same override again\<close>

lemma array_free_props_iff: "array_free_props ps \<longleftrightarrow> (\<forall>p\<in>set ps. array_free (snd p))"
  by (induction ps) auto

lemma distinct_keys_props_iff: "distinct_keys_props ps \<longleftrightarrow> (\<forall>p\<in>set ps. distinct_keys (snd p))"
  by (induction ps) auto

lemma merge_value_undefined: "merge_value JUndefined s a = Inr s"
  by (simp add: merge_value_def deepMerge.simps)

lemma merge_value_again:
  "array_free s \<Longrightarrow> distinct_keys s \<Longrightarrow> merge_value t s x = Inr v \<Longrightarrow>
     \<exists>v'. merge_value v s y = Inr v' \<and> forget v' = forget v"
proof (induction s arbitrary: t v x y)
  case (JObj r ps)
  have entries: "\<exists>v''. merge_value v' s' y' = Inr v'' \<and> forget v'' = forget v'"
    if "(k, s') \<in> set ps" "merge_value t' s' x' = Inr v'" for k s' t' v' x' y'
  proof -
    from that(1) have "s' \<in> Basic_BNFs.snds (k, s')" "(k, s') \<in> set ps" by auto
    moreover from that(1) JObj.prems have "array_free s'" "distinct_keys s'"
      by (auto simp: array_free_props_iff distinct_keys_props_iff)
    ultimately show ?thesis using JObj.IH that(2) by blast
  qed
  from JObj.prems have dist: "distinct (map fst ps)" by simp
  have mv: "merge_value u (JObj r ps) z = deepMerge u (JObj r ps) z" for u z
    by (simp add: merge_value_def)
  show ?case
  proof (cases "typeof t = TyObject")
    case False
    with JObj.prems(3) have v: "v = JObj r ps"
      by (simp add: mv deepMerge.simps)
    have "\<exists>out'. merge_props (JObj r ps) ps ps y 0 = Inr out'
            \<and> forget_props out' = forget_props ps"
    proof (rule merge_props_fixed)
      fix k s' i assume mem: "(k, s') \<in> set ps"
      from entries [OF mem merge_value_undefined]
      obtain v'' where "merge_value s' s' (y @ [i]) = Inr v''" "forget v'' = forget s'"
        by blast
      moreover from mem dist have "map_of ps k = Some s'" by simp
      ultimately show "\<exists>v v'. map_of ps k = Some v \<and> merge_value v s' (y @ [i]) = Inr v'
          \<and> forget v' = forget v"
        by blast
    qed simp_all
    then show ?thesis
      by (auto simp: v mv deepMerge.simps)
  next
    case True
    with JObj.prems(3) obtain out where
      out: "merge_props t (spread t) ps x 0 = Inr out" "v = JObj x out"
      by (auto simp: mv deepMerge.simps split: sum.splits)
    have "\<exists>out'. merge_props (JObj x out) out ps y 0 = Inr out'
            \<and> forget_props out' = forget_props out"
    proof (rule merge_props_fixed)
      fix k s' i assume mem: "(k, s') \<in> set ps"
      from merge_props_entry [OF out(1) dist mem] obtain t' v' j where
        e: "merge_value t' s' (x @ [j]) = Inr v'" "map_of out k = Some v'" by blast
      from entries [OF mem e(1)]
      obtain v'' where "merge_value v' s' (y @ [i]) = Inr v''" "forget v'' = forget v'"
        by blast
      with e(2) show "\<exists>v v'. map_of out k = Some v \<and> merge_value v s' (y @ [i]) = Inr v'
          \<and> forget v' = forget v"
        by blast
    qed simp_all
    then show ?thesis
      by (auto simp: out(2) mv deepMerge.simps)
  qed
qed (auto simp: merge_value_def)

subsection \<open>The union of two arrays\<close>

lemma set_has_iff: "set_has acc x \<longleftrightarrow> (\<exists>y\<in>set acc. same_value_zero y x)"
  by (simp add: set_has_def list_ex_iff)

lemma set_has_same: "same_value_zero x y \<Longrightarrow> set_has acc x \<longleftrightarrow> set_has acc y"
  unfolding set_has_iff
  by (meson same_value_zero_sym same_value_zero_trans)

lemma set_add_old: "set_has acc x \<Longrightarrow> set_add acc x = acc"
  and set_add_new: "\<not> set_has acc x \<Longrightarrow> set_add acc x = acc @ [x]"
  by (simp_all add: set_add_def)

lemma set_has_add: "set_has (set_add acc y) x \<longleftrightarrow> set_has acc x \<or> same_value_zero y x"
proof (cases "set_has acc y")
  case True
  then show ?thesis
    using set_has_same [of y x acc] by (auto simp: set_add_old)
next
  case False
  then show ?thesis
    by (auto simp: set_add_new set_has_iff)
qed

lemma set_has_foldl:
  "set_has (foldl set_add acc xs) x \<longleftrightarrow> set_has acc x \<or> set_has xs x"
proof (induction xs arbitrary: acc)
  case Nil
  show ?case by (simp add: set_has_iff)
next
  case (Cons y ys)
  have "set_has (y # ys) x \<longleftrightarrow> same_value_zero y x \<or> set_has ys x"
    by (simp add: set_has_iff)
  with Cons [of "set_add acc y"] show ?case
    by (auto simp: set_has_add)
qed

lemma set_has_js_set: "set_has (js_set xs) x \<longleftrightarrow> set_has xs x"
  by (simp add: js_set_def set_has_foldl) (simp add: set_has_iff)

lemma subset_foldl_set_add: "set (foldl set_add acc xs) \<subseteq> set acc \<union> set xs"
proof (induction xs arbitrary: acc)
  case Nil
  show ?case by simp
next
  case (Cons y ys)
  have "set (set_add acc y) \<subseteq> set acc \<union> {y}"
    by (auto simp: set_add_def)
  with Cons [of "set_add acc y"] show ?case by auto
qed

lemma subset_js_set: "set (js_set xs) \<subseteq> set xs"
  using subset_foldl_set_add [of "[]" xs] by (simp add: js_set_def)

lemma unrepeated_snoc: "unrepeated (acc @ [x]) \<longleftrightarrow> unrepeated acc \<and> \<not> set_has acc x"
  by (induction acc) (auto simp: set_has_iff list_ex_iff)

lemma unrepeated_foldl: "unrepeated acc \<Longrightarrow> unrepeated (foldl set_add acc xs)"
proof (induction xs arbitrary: acc)
  case Nil
  then show ?case by simp
next
  case (Cons y ys)
  from Cons.prems have "unrepeated (set_add acc y)"
    by (cases "set_has acc y") (simp_all add: set_add_old set_add_new unrepeated_snoc)
  with Cons.IH show ?case by simp
qed

lemma unrepeated_nth:
  "unrepeated xs \<Longrightarrow> i < j \<Longrightarrow> j < length xs \<Longrightarrow> \<not> same_value_zero (xs ! i) (xs ! j)"
proof (induction xs arbitrary: i j)
  case Nil
  then show ?case by simp
next
  case (Cons x xs)
  from Cons.prems(2) obtain j' where j: "j = Suc j'" by (cases j) auto
  show ?case
  proof (cases i)
    case 0
    from Cons.prems(3) j have "xs ! j' \<in> set xs" by simp
    with Cons.prems(1) show ?thesis
      by (auto simp: 0 j list_ex_iff)
  next
    case (Suc i')
    with Cons.prems j Cons.IH [of i' j'] show ?thesis by simp
  qed
qed

lemma unrepeated_js_set: "unrepeated (js_set xs)"
  by (simp add: js_set_def unrepeated_foldl)

lemma foldl_set_add_new:
  "unrepeated (acc @ xs) \<Longrightarrow> foldl set_add acc xs = acc @ xs"
proof (induction xs arbitrary: acc)
  case Nil
  then show ?case by simp
next
  case (Cons x xs)
  from Cons.prems have "unrepeated ((acc @ [x]) @ xs)" by simp
  moreover from this have "unrepeated (acc @ [x])"
    by (induction acc) (auto simp: list_ex_iff)
  then have "\<not> set_has acc x"
    by (simp add: unrepeated_snoc)
  ultimately show ?case
    using Cons.IH [of "acc @ [x]"] by (simp add: set_add_new)
qed

lemma js_set_fixed: "unrepeated xs \<Longrightarrow> js_set xs = xs"
  using foldl_set_add_new [of "[]" xs] by (simp add: js_set_def)

lemma foldl_set_add_known:
  "list_all (set_has acc) xs \<Longrightarrow> foldl set_add acc xs = acc"
  by (induction xs) (simp_all add: set_add_old)

lemma js_set_again: "js_set (js_set (t @ s) @ s) = js_set (t @ s)"
proof -
  have "js_set (js_set (t @ s) @ s) = foldl set_add (js_set (js_set (t @ s))) s"
    by (simp add: js_set_def)
  also have "js_set (js_set (t @ s)) = js_set (t @ s)"
    by (rule js_set_fixed) (rule unrepeated_js_set)
  also have "foldl set_add (js_set (t @ s)) s = js_set (t @ s)"
  proof (rule foldl_set_add_known)
    have "set_has (t @ s) x" if "x \<in> set s" for x
      using that same_value_zero_refl [of x] by (auto simp: set_has_iff)
    then show "list_all (set_has (js_set (t @ s))) s"
      by (simp add: list_all_iff set_has_js_set)
  qed
  finally show ?thesis .
qed

lemma foldl_set_add_append:
  "foldl set_add acc xs = acc @ filter (\<lambda>x. \<not> set_has acc x) (foldl set_add [] xs)"
proof (induction xs rule: rev_induct)
  case Nil
  then show ?case by simp
next
  case (snoc x xs)
  let ?J = "foldl set_add [] xs"
  have has: "set_has (acc @ filter (\<lambda>x. \<not> set_has acc x) ?J) x
          \<longleftrightarrow> set_has acc x \<or> set_has ?J x"
    using snoc [symmetric] by (simp add: set_has_foldl) (auto simp: set_has_iff)
  show ?case
  proof (cases "set_has ?J x")
    case True
    with has snoc show ?thesis
      by (simp add: set_add_old)
  next
    case no: False
    show ?thesis
    proof (cases "set_has acc x")
      case True
      with has no snoc show ?thesis
        by (simp add: set_add_old set_add_new)
    next
      case False
      with has no snoc show ?thesis
        by (simp add: set_add_new)
    qed
  qed
qed

lemma js_set_append:
  "js_set (t @ s) = js_set t @ filter (\<lambda>x. \<not> set_has t x) (js_set s)"
proof -
  have "js_set (t @ s) = foldl set_add (js_set t) s"
    by (simp add: js_set_def)
  also have "\<dots> = js_set t @ filter (\<lambda>x. \<not> set_has (js_set t) x) (js_set s)"
    unfolding js_set_def [of s] by (rule foldl_set_add_append)
  finally show ?thesis
    by (simp add: set_has_js_set)
qed

lemma same_primitive: "is_primitive x \<Longrightarrow> same_value_zero y x \<longleftrightarrow> y = x"
  by (cases x; cases y) (auto simp: same_value_zero_def)

lemma unrepeated_distinct: "list_all is_primitive xs \<Longrightarrow> unrepeated xs \<Longrightarrow> distinct xs"
proof (induction xs)
  case Nil
  then show ?case by simp
next
  case (Cons x xs)
  then have "\<not> list_ex (same_value_zero x) xs" "list_all is_primitive xs" by simp_all
  then have "x \<notin> set xs"
    using same_primitive by (auto simp: list_ex_iff list_all_iff)
  with Cons show ?case by simp
qed

lemma js_set_primitives:
  assumes "list_all is_primitive xs"
  shows "distinct (js_set xs)" "set (js_set xs) = set xs"
proof -
  from assms subset_js_set [of xs] have "list_all is_primitive (js_set xs)"
    by (auto simp: list_all_iff)
  then show "distinct (js_set xs)"
    using unrepeated_js_set by (rule unrepeated_distinct)
  have "x \<in> set (js_set xs)" if "x \<in> set xs" for x
  proof -
    from that have "set_has xs x"
      using same_value_zero_refl [of x] by (auto simp: set_has_iff)
    then have "set_has (js_set xs) x"
      by (simp add: set_has_js_set)
    moreover from that assms have "is_primitive x"
      by (simp add: list_all_iff)
    ultimately show ?thesis
      by (auto simp: set_has_iff same_primitive)
  qed
  with subset_js_set [of xs] show "set (js_set xs) = set xs" by auto
qed

text \<open>
  C5, as the code has it. When the merge of \<open>a\<close> with the object \<open>b\<close> returns, and the
  key \<open>k\<close> holds the array \<open>t\<close> in \<open>a\<close> and the array \<open>s\<close> in \<open>b\<close>, then \<open>k\<close>
  holds in the result a new array, the members of \<^verbatim>\<open>new Set([...t, ...s])\<close> in
  insertion order: its elements are elements of \<open>t\<close> or of \<open>s\<close>; every element of
  \<open>t\<close> and of \<open>s\<close> has its like among them; no two of them are the same value; and
  they are the members of \<open>t\<close> followed by the members of \<open>s\<close> that \<open>t\<close> does not
  have. Members are compared as a \<^verbatim>\<open>Set\<close> compares them: primitives by value,
  arrays and objects by reference. So for lists of primitives, such as argument lists,
  the result is the union by value with no value twice.
\<close>

theorem merge_arrays_union:
  assumes merged: "deepMerge a (JObj r pb) x = Inr m"
    and base: "get_prop a k = Inr (JArr ra t)"
    and over: "(k, JArr rs s) \<in> set pb" "distinct (map fst pb)"
  shows "(\<exists>j. get_prop m k = Inr (JArr (x @ [j]) (js_set (t @ s))))
         \<and> set (js_set (t @ s)) \<subseteq> set t \<union> set s
         \<and> list_all (set_has (js_set (t @ s))) (t @ s)
         \<and> unrepeated (js_set (t @ s))
         \<and> (\<forall>i j. i < j \<and> j < length (js_set (t @ s)) \<longrightarrow>
               \<not> same_value_zero (js_set (t @ s) ! i) (js_set (t @ s) ! j))
         \<and> js_set (t @ s) = js_set t @ filter (\<lambda>v. \<not> set_has t v) (js_set s)
         \<and> (list_all is_primitive (t @ s) \<longrightarrow>
              distinct (js_set (t @ s)) \<and> set (js_set (t @ s)) = set t \<union> set s)"
proof (intro conjI impI allI)
  from base have "typeof a = TyObject"
    by (cases a) (auto split: option.splits if_splits)
  with merged obtain out where out: "merge_props a (spread a) pb x 0 = Inr out" "m = JObj x out"
    by (auto simp: deepMerge.simps split: sum.splits)
  from merge_props_entry [OF out(1) over(2,1)] base
  obtain j where "map_of out k = Some (JArr (x @ [j]) (js_set (t @ s)))"
    by (auto simp: merge_value_def)
  then show "\<exists>j. get_prop m k = Inr (JArr (x @ [j]) (js_set (t @ s)))"
    by (auto simp: out(2))
next
  show "set (js_set (t @ s)) \<subseteq> set t \<union> set s"
    using subset_js_set [of "t @ s"] by simp
next
  have "set_has (t @ s) v" if "v \<in> set (t @ s)" for v
    using that same_value_zero_refl [of v] by (auto simp: set_has_iff)
  then show "list_all (set_has (js_set (t @ s))) (t @ s)"
    by (simp add: list_all_iff set_has_js_set)
next
  show "unrepeated (js_set (t @ s))"
    by (rule unrepeated_js_set)
next
  fix i j assume "i < j \<and> j < length (js_set (t @ s))"
  then show "\<not> same_value_zero (js_set (t @ s) ! i) (js_set (t @ s) ! j)"
    using unrepeated_nth [OF unrepeated_js_set] by blast
next
  show "js_set (t @ s) = js_set t @ filter (\<lambda>v. \<not> set_has t v) (js_set s)"
    by (rule js_set_append)
next
  assume p: "list_all is_primitive (t @ s)"
  from js_set_primitives [OF p]
  show "distinct (js_set (t @ s))" "set (js_set (t @ s)) = set t \<union> set s"
    by simp_all
qed

theorem merge_arrays_union_witness:
  "deepMerge base_config (JObj [2] args_override) [0] =
     Inr (JObj [0]
            [(''headless'', JBool False),
             (''args'', JArr [0, 0] [JStr ''--mute-audio'', JStr ''--window-size=800,600'',
                                     JStr ''--lang=en'']),
             (''defaultViewport'', JObj [1, 1] [(''width'', JNum 800)])])
   \<and> js_set ([JStr ''--mute-audio'', JStr ''--window-size=800,600'']
              @ [JStr ''--window-size=800,600'', JStr ''--lang=en'', JStr ''--lang=en'']) =
       [JStr ''--mute-audio'', JStr ''--window-size=800,600'', JStr ''--lang=en'']
   \<and> distinct [JStr ''--mute-audio'', JStr ''--window-size=800,600'', JStr ''--lang=en'']"
proof -
  let ?t = "[JStr ''--mute-audio'', JStr ''--window-size=800,600'']"
  let ?s = "[JStr ''--window-size=800,600'', JStr ''--lang=en'', JStr ''--lang=en'']"
  let ?m = "JObj [0]
            [(''headless'', JBool False),
             (''args'', JArr [0, 0] [JStr ''--mute-audio'', JStr ''--window-size=800,600'',
                                     JStr ''--lang=en'']),
             (''defaultViewport'', JObj [1, 1] [(''width'', JNum 800)])]"
  have 1: "deepMerge base_config (JObj [2] args_override) [0] = Inr ?m"
    by (simp add: base_config_def args_override_def js_eval)
  have 2: "get_prop base_config ''args'' = Inr (JArr [1, 0] ?t)"
    and 3: "(''args'', JArr [2, 0] ?s) \<in> set args_override" "distinct (map fst args_override)"
    and 4: "list_all is_primitive (?t @ ?s)"
    by (simp_all add: base_config_def args_override_def)
  have 5: "js_set (?t @ ?s) =
       [JStr ''--mute-audio'', JStr ''--window-size=800,600'', JStr ''--lang=en'']"
    by (simp add: js_eval)
  from merge_arrays_union [OF 1 2 3] 4 have "distinct (js_set (?t @ ?s))"
    by blast
  with 1 5 show ?thesis
    by simp
qed

text \<open>As the specification states it, C5 fails: the union is not free of duplicates by
  value. Two configurations parsed from the same text hold equal objects in their
  arrays, and the merged array holds both.\<close>

theorem merge_arrays_keeps_equal:
  "forget plugins_override = forget plugins_base
   \<and> deepMerge plugins_base plugins_override [0] =
       Inr (JObj [0]
              [(''plugins'', JArr [0, 0] [JObj [1, 0, 0] [(''name'', JStr ''stealth'')],
                                          JObj [2, 0, 0] [(''name'', JStr ''stealth'')]])])
   \<and> forget (JObj [1, 0, 0] [(''name'', JStr ''stealth'')]) =
       forget (JObj [2, 0, 0] [(''name'', JStr ''stealth'')])"
  by (simp add: plugins_base_def plugins_override_def js_eval)

text \<open>
  C6. Let \<open>b\<close> be a configuration with no array-valued field, at any depth. Merging
  \<open>b\<close> into the result of merging \<open>b\<close> into \<open>a\<close> gives that result again, in
  structure (the repeated merge allocates its result anew); when the first merge
  throws, the repeated merge is that throw. The union of arrays is idempotent too: the
  members of the members of a list are its members, and the union of \<open>s\<close> with the
  union of \<open>t\<close> and \<open>s\<close> is the union of \<open>t\<close> and \<open>s\<close>.
\<close>

theorem merge_idempotent:
  assumes "array_free (JObj r pb)" "distinct_keys (JObj r pb)"
  shows "(case deepMerge a (JObj r pb) x of
            Inl e \<Rightarrow> Inl e
          | Inr m \<Rightarrow> map_sum id forget (deepMerge m (JObj r pb) y))
           = map_sum id forget (deepMerge a (JObj r pb) x)
         \<and> js_set (js_set (t @ s)) = js_set (t @ s)
         \<and> js_set (js_set (t @ s) @ s) = js_set (t @ s)"
proof (intro conjI)
  have mv: "merge_value u (JObj r pb) z = deepMerge u (JObj r pb) z" for u z
    by (simp add: merge_value_def)
  show "(case deepMerge a (JObj r pb) x of
            Inl e \<Rightarrow> Inl e
          | Inr m \<Rightarrow> map_sum id forget (deepMerge m (JObj r pb) y))
           = map_sum id forget (deepMerge a (JObj r pb) x)"
  proof (cases "deepMerge a (JObj r pb) x")
    case (Inl e)
    then show ?thesis by simp
  next
    case (Inr m)
    with merge_value_again [OF assms, of a x m y] show ?thesis
      by (auto simp: mv)
  qed
next
  show "js_set (js_set (t @ s)) = js_set (t @ s)"
    by (rule js_set_fixed) (rule unrepeated_js_set)
next
  show "js_set (js_set (t @ s) @ s) = js_set (t @ s)"
    by (rule js_set_again)
qed

theorem merge_idempotent_witness:
  "deepMerge base_config (JObj [2] plain_override) [0] =
     Inr (JObj [0]
            [(''headless'', JBool True),
             (''args'', JArr [1, 0] [JStr ''--mute-audio'', JStr ''--window-size=800,600'']),
             (''defaultViewport'', JObj [0, 1] [(''width'', JNum 800), (''height'', JNum 600)])])
   \<and> map_sum id forget
        (deepMerge
          (JObj [0]
            [(''headless'', JBool True),
             (''args'', JArr [1, 0] [JStr ''--mute-audio'', JStr ''--window-size=800,600'']),
             (''defaultViewport'', JObj [0, 1] [(''width'', JNum 800), (''height'', JNum 600)])])
          (JObj [2] plain_override) [3]) =
     Inr (JObj []
            [(''headless'', JBool True),
             (''args'', JArr [] [JStr ''--mute-audio'', JStr ''--window-size=800,600'']),
             (''defaultViewport'', JObj [] [(''width'', JNum 800), (''height'', JNum 600)])])
   \<and> js_set ([JObj [7] [(''name'', JStr ''stealth'')], JStr ''--mute-audio'']
              @ [JObj [8] [(''name'', JStr ''stealth'')], JObj [7] [(''name'', JStr ''stealth'')],
                 JStr ''--mute-audio'']) =
       [JObj [7] [(''name'', JStr ''stealth'')], JStr ''--mute-audio'',
        JObj [8] [(''name'', JStr ''stealth'')]]
   \<and> js_set ([JObj [7] [(''name'', JStr ''stealth'')], JStr ''--mute-audio'',
               JObj [8] [(''name'', JStr ''stealth'')]]
              @ [JObj [8] [(''name'', JStr ''stealth'')], JObj [7] [(''name'', JStr ''stealth'')],
                 JStr ''--mute-audio'']) =
       [JObj [7] [(''name'', JStr ''stealth'')], JStr ''--mute-audio'',
        JObj [8] [(''name'', JStr ''stealth'')]]"
proof -
  let ?t = "[JObj [7] [(''name'', JStr ''stealth'')], JStr ''--mute-audio'']"
  let ?s = "[JObj [8] [(''name'', JStr ''stealth'')], JObj [7] [(''name'', JStr ''stealth'')],
             JStr ''--mute-audio'']"
  have 3: "js_set (?t @ ?s) =
       [JObj [7] [(''name'', JStr ''stealth'')], JStr ''--mute-audio'',
        JObj [8] [(''name'', JStr ''stealth'')]]"
    by (simp add: js_eval)
  have 1: "array_free (JObj [2] plain_override)" "distinct_keys (JObj [2] plain_override)"
    by (simp_all add: plain_override_def)
  have 2: "deepMerge base_config (JObj [2] plain_override) [0] =
     Inr (JObj [0]
            [(''headless'', JBool True),
             (''args'', JArr [1, 0] [JStr ''--mute-audio'', JStr ''--window-size=800,600'']),
             (''defaultViewport'', JObj [0, 1] [(''width'', JNum 800), (''height'', JNum 600)])])"
    by (simp add: base_config_def plain_override_def js_eval)
  from merge_idempotent [OF 1, where a = base_config and x = "[0]" and y = "[3]"
      and t = ?t and s = ?s]
  show ?thesis
    unfolding 2 3 by simp
qed

text \<open>
  C4. The test of line 151 is \<^verbatim>\<open>typeof\<close>, for which \<^verbatim>\<open>null\<close> and arrays are
  objects. A \<^verbatim>\<open>null\<close> base with an object override throws at \<^verbatim>\<open>target[key]\<close>,
  a \<^verbatim>\<open>null\<close> override on an object base throws at \<^verbatim>\<open>Object.keys\<close>, and an
  array override on an object base is copied into the base index by index: none of the
  three returns the override. The first is reached from \<^verbatim>\<open>ensureBrowser\<close> when the
  environment sets \<^verbatim>\<open>defaultViewport\<close> to \<^verbatim>\<open>null\<close> and the call sets a viewport.
\<close>

theorem merge_null_or_array_operand:
  "deepMerge JNull (JObj [1] [(''width'', JNum 1280)]) [0] = Inl (cannot_read ''null'' ''width'')
   \<and> deepMerge (JObj [1] [(''headless'', JBool True)]) JNull [0] =
       Inl (TypeError ''Cannot convert undefined or null to object'')
   \<and> deepMerge (JObj [1] [(''headless'', JBool True)]) (JArr [2] [JStr ''--mute-audio'']) [0] =
       Inr (JObj [0] [(''0'', JStr ''--mute-audio''), (''headless'', JBool True)])
   \<and> ensureBrowser viewport_env quiet_world viewport_args init_state =
       (Inl (cannot_read ''null'' ''width''), init_state)"
  by (simp add: js_eval show_nat.simps digit_char_def ensureBrowser_def check_options_def
      destructure_def viewport_env_def viewport_args_def plain_env_def envConfig_def)

text \<open>What does hold of line 151: an operand that \<^verbatim>\<open>typeof\<close> does not call an
  object makes the override the result.\<close>

lemma merge_non_object:
  "typeof target \<noteq> TyObject \<or> typeof source \<noteq> TyObject \<Longrightarrow>
     deepMerge target source a = Inr source"
  by (simp add: deepMerge.simps)

end
